theory Spec2Isabelle
  imports Complex_Main
begin

section \<open>Entity model (App.tsx, lines 4-54)\<close>

text \<open>
  The TypeScript types of the tracker, one record per object type.  A field that may be
  absent (\<^verbatim>\<open>?\<close>) or \<^verbatim>\<open>null\<close> is an \<open>option\<close>.  JavaScript numbers are
  idealised: weights, repetitions and distances are finite reals with exact arithmetic,
  counters and seconds are integers.  A time stamp is an ISO-8601 string written by
  \<^verbatim>\<open>Date.toISOString()\<close>; the model stores the epoch milliseconds it denotes, so that
  \<^verbatim>\<open>new Date(x).getTime()\<close> is the identity.  Strings that are not dates have no
  counterpart in the model.
\<close>

type_synonym iso = int

datatype TrainingType = Push | Pull | Legs_core | Murph | Run | Dashboard

record SetEntry =
  set_id :: string
  weightKg :: "real option"
  reps :: "real option"
  set_notes :: "string option"
  createdAt :: iso

record Exercise =
  ex_id :: string
  name :: string
  variation :: "string option"
  sets :: "SetEntry list"
  targetRepHint :: "string option"
  ex_order :: nat

record Totals =
  volumeKg :: "real option"
  setCount :: "nat option"

text \<open>
  \<open>rounds\<close> is declared mandatory in the source, but the handlers build the object by
  spreading \<^verbatim>\<open>s.murphData!\<close>, which yields an object without the key when
  \<^verbatim>\<open>murphData\<close> is undefined; the model keeps that case.
\<close>

record MurphData =
  rounds :: "nat option"
  totalTime :: "nat option"
  isLite :: "bool option"
  weightVest :: "bool option"
  weightVestKg :: "real option"

record RunData =
  distance :: real
  duration :: int

record TrainingSession =
  session_id :: string
  session_type :: TrainingType
  date :: iso
  completed :: bool
  startedAt :: iso
  endedAt :: "iso option"
  exercises :: "Exercise list"
  session_notes :: "string option"
  location :: "string option"
  totals :: "Totals option"
  murphData :: "MurphData option"
  runData :: "RunData option"

record DB =
  version :: nat
  sessions :: "TrainingSession list"

definition initDB :: DB where
  "initDB = \<lparr>version = 1, sessions = []\<rparr>"

section \<open>Helpers (App.tsx, lines 77-175)\<close>

subsection \<open>calcVolume\<close>

text \<open>
  The two nested \<^verbatim>\<open>forEach\<close> loops of \<^verbatim>\<open>calcVolume\<close> add to the local variable
  \<^verbatim>\<open>total\<close> (here \<open>tot\<close>); each loop is a left fold that threads the running sum.
\<close>

definition addSetVolume :: "SetEntry \<Rightarrow> real \<Rightarrow> real" where
  "addSetVolume st tot =
     (case weightKg st of
        None \<Rightarrow> tot
      | Some w \<Rightarrow> (case reps st of None \<Rightarrow> tot | Some r \<Rightarrow> tot + w * r))"

definition calcVolume :: "TrainingSession \<Rightarrow> real" where
  "calcVolume session = fold (\<lambda>ex tot. fold addSetVolume (sets ex) tot) (exercises session) 0"

text \<open>
  The volume as the specification words it: the sum, over the sets of all exercises that
  have both a weight and a repetition count, of weight times repetitions.
\<close>

definition bothLogged :: "SetEntry \<Rightarrow> bool" where
  "bothLogged st = (weightKg st \<noteq> None \<and> reps st \<noteq> None)"

definition allSets :: "TrainingSession \<Rightarrow> SetEntry list" where
  "allSets session = concat (map sets (exercises session))"

definition volumeOf_spec :: "TrainingSession \<Rightarrow> real" where
  "volumeOf_spec session =
     (\<Sum>st \<leftarrow> filter bothLogged (allSets session). the (weightKg st) * the (reps st))"

definition setContribution :: "SetEntry \<Rightarrow> real" where
  "setContribution st = (if bothLogged st then the (weightKg st) * the (reps st) else 0)"

subsection \<open>parseNumber\<close>

text \<open>
  Strings are lists of bytes; a character outside ASCII is written as its UTF-8 bytes,
  which keeps string equality as it is in JavaScript.  \<^verbatim>\<open>trim\<close> and the leading
  white space skipped by \<^verbatim>\<open>parseFloat\<close> are modelled for the ASCII white space
  characters (tab, line feed, vertical tab, form feed, carriage return, space).

  The result of \<^verbatim>\<open>parseFloat\<close> is a JavaScript number: not-a-number, an infinity
  with its sign, or a finite value.  The finite value is the exact decimal value of the
  literal; rounding to a double is not modelled.
\<close>

datatype jsnumber = NaN | Infinite bool | Finite real

definition isWhiteSpace :: "char \<Rightarrow> bool" where
  "isWhiteSpace c = (of_char c \<in> {9, 10, 11, 12, 13, 32 :: nat})"

definition trim :: "string \<Rightarrow> string" where
  "trim s = rev (dropWhile isWhiteSpace (rev (dropWhile isWhiteSpace s)))"

text \<open>\<^verbatim>\<open>s.replace(a, b)\<close> with a string pattern replaces the first occurrence only.\<close>

fun replaceFirst :: "char \<Rightarrow> char \<Rightarrow> string \<Rightarrow> string" where
  "replaceFirst a b [] = []"
| "replaceFirst a b (c # cs) = (if c = a then b # cs else c # replaceFirst a b cs)"

definition isDigit :: "char \<Rightarrow> bool" where
  "isDigit c = (48 \<le> (of_char c :: nat) \<and> (of_char c :: nat) \<le> 57)"

definition digitsValue :: "string \<Rightarrow> nat" where
  "digitsValue ds = foldl (\<lambda>acc c. 10 * acc + (of_char c - 48)) 0 ds"

definition scale10 :: "real \<Rightarrow> int \<Rightarrow> real" where
  "scale10 m e = (if 0 \<le> e then m * 10 ^ nat e else m / 10 ^ nat (- e))"

text \<open>
  The exponent part \<^verbatim>\<open>(e|E)(+|-)?digits\<close> of a decimal literal; it belongs to the
  parsed prefix only when at least one digit follows.
\<close>

definition exponentPart :: "string \<Rightarrow> int" where
  "exponentPart r =
     (case r of
        [] \<Rightarrow> 0
      | c # r1 \<Rightarrow>
          if c = CHR ''e'' \<or> c = CHR ''E'' then
            (case r1 of
               [] \<Rightarrow> 0
             | d # r2 \<Rightarrow>
                 if d = CHR ''+'' then int (digitsValue (takeWhile isDigit r2))
                 else if d = CHR ''-'' then - int (digitsValue (takeWhile isDigit r2))
                 else int (digitsValue (takeWhile isDigit r1)))
          else 0)"

definition unsignedLiteral :: "string \<Rightarrow> jsnumber" where
  "unsignedLiteral r =
     (if take 8 r = ''Infinity'' then Infinite True
      else
        let ip = takeWhile isDigit r;
            r1 = dropWhile isDigit r;
            fp = (case r1 of [] \<Rightarrow> [] | c # r' \<Rightarrow> if c = CHR ''.'' then takeWhile isDigit r' else []);
            r2 = (case r1 of [] \<Rightarrow> [] | c # r' \<Rightarrow> if c = CHR ''.'' then dropWhile isDigit r' else r1)
        in if ip = [] \<and> fp = [] then NaN
           else Finite (scale10 (real (digitsValue ip) + real (digitsValue fp) / 10 ^ length fp)
                          (exponentPart r2)))"

definition negate :: "jsnumber \<Rightarrow> jsnumber" where
  "negate x = (case x of NaN \<Rightarrow> NaN | Infinite b \<Rightarrow> Infinite (\<not> b) | Finite r \<Rightarrow> Finite (- r))"

text \<open>
  \<^verbatim>\<open>parseFloat\<close>: skip leading white space, then take the value of the longest prefix
  that is a decimal literal, or not-a-number when there is none.  What follows the
  prefix is ignored.
\<close>

definition parseFloat :: "string \<Rightarrow> jsnumber" where
  "parseFloat s =
     (case dropWhile isWhiteSpace s of
        [] \<Rightarrow> NaN
      | c # r \<Rightarrow>
          if c = CHR ''+'' then unsignedLiteral r
          else if c = CHR ''-'' then negate (unsignedLiteral r)
          else unsignedLiteral (c # r))"

definition parseNumber :: "string \<Rightarrow> jsnumber option" where
  "parseNumber v =
     (if v = [] \<or> trim v = [] then None
      else
        let cleaned = replaceFirst (CHR '','') (CHR ''.'') (trim v);
            parsed = parseFloat cleaned
        in if parsed = NaN then None else Some parsed)"

subsection \<open>Templates and default sets\<close>

definition uuml :: string where
  "uuml = [CHR 0xC3, CHR 0xBC]"

definition auml :: string where
  "auml = [CHR 0xC3, CHR 0xA4]"

definition Bankdruecken :: string where
  "Bankdruecken = ''Bankdr'' @ uuml @ ''cken''"

definition Klimmzuege :: string where
  "Klimmzuege = ''Klimmz'' @ uuml @ ''ge''"

definition Kreuzheben :: string where
  "Kreuzheben = ''Kreuzheben''"

text \<open>A template entry is an exercise without its id (\<^verbatim>\<open>Omit<Exercise, 'id'>\<close>).\<close>

record TemplateEntry =
  t_name :: string
  t_variation :: "string option"
  t_order :: nat

definition PUSH_TEMPLATE :: "TemplateEntry list" where
  "PUSH_TEMPLATE =
    [\<lparr>t_name = ''Overhead Press'', t_variation = None, t_order = 0\<rparr>,
     \<lparr>t_name = Bankdruecken, t_variation = Some ''Langhantel'', t_order = 1\<rparr>,
     \<lparr>t_name = ''Schr'' @ auml @ ''gbankdr'' @ uuml @ ''cken'', t_variation = Some ''Langhantel'', t_order = 2\<rparr>,
     \<lparr>t_name = ''Military Press'', t_variation = None, t_order = 3\<rparr>,
     \<lparr>t_name = ''SZ-Frontheben'', t_variation = None, t_order = 4\<rparr>,
     \<lparr>t_name = ''Dips'', t_variation = None, t_order = 5\<rparr>,
     \<lparr>t_name = ''SZ-Trizepsdr'' @ uuml @ ''cken'', t_variation = None, t_order = 6\<rparr>]"

definition PULL_TEMPLATE :: "TemplateEntry list" where
  "PULL_TEMPLATE =
    [\<lparr>t_name = Klimmzuege, t_variation = None, t_order = 0\<rparr>,
     \<lparr>t_name = ''Schweres Rudern'', t_variation = None, t_order = 1\<rparr>,
     \<lparr>t_name = Kreuzheben, t_variation = None, t_order = 2\<rparr>,
     \<lparr>t_name = ''Rudern hinten'', t_variation = None, t_order = 3\<rparr>,
     \<lparr>t_name = ''Bizepscurls'', t_variation = Some ''SZ-Stange'', t_order = 4\<rparr>,
     \<lparr>t_name = ''Shrugs / Nacken'', t_variation = None, t_order = 5\<rparr>]"

definition LEGS_TEMPLATE :: "TemplateEntry list" where
  "LEGS_TEMPLATE =
    [\<lparr>t_name = ''Beinpresse'', t_variation = None, t_order = 0\<rparr>,
     \<lparr>t_name = ''Beinbeuger'', t_variation = None, t_order = 1\<rparr>,
     \<lparr>t_name = ''Bauch (Schr'' @ auml @ ''gbank)'', t_variation = None, t_order = 2\<rparr>,
     \<lparr>t_name = ''Waden stehend / sitzend'', t_variation = None, t_order = 3\<rparr>,
     \<lparr>t_name = ''Bauch, quer'', t_variation = None, t_order = 4\<rparr>,
     \<lparr>t_name = ''Ausfallschritte'', t_variation = None, t_order = 5\<rparr>]"

text \<open>
  \<^verbatim>\<open>generateId()\<close> joins the clock and a random number.  The model draws ids from a
  supply \<open>gen\<close>: the \<open>k\<close>-th call made by a handler returns \<open>gen k\<close>, and the functions
  below take the number of calls made so far.  \<^verbatim>\<open>new Date().toISOString()\<close> is the
  parameter \<open>now\<close>, one reading of the clock per handler.
\<close>

definition emptySet :: "string \<Rightarrow> iso \<Rightarrow> SetEntry" where
  "emptySet i now = \<lparr>set_id = i, weightKg = None, reps = None, set_notes = None, createdAt = now\<rparr>"

definition defaultSetCount :: "string \<Rightarrow> nat" where
  "defaultSetCount exerciseName =
     (if exerciseName \<in> set [Bankdruecken, Klimmzuege, Kreuzheben] then 5 else 3)"

definition getDefaultSetsForExercise :: "(nat \<Rightarrow> string) \<Rightarrow> nat \<Rightarrow> iso \<Rightarrow> string \<Rightarrow> SetEntry list" where
  "getDefaultSetsForExercise gen k now exerciseName =
     map (\<lambda>j. emptySet (gen (k + j)) now) [0 ..< defaultSetCount exerciseName]"

text \<open>
  \<^verbatim>\<open>template.map(ex => ({...ex, id: generateId(), sets: getDefaultSetsForExercise(ex.name)}))\<close>:
  each entry takes one id for the exercise and then one for each of its sets.
\<close>

fun instantiate :: "(nat \<Rightarrow> string) \<Rightarrow> nat \<Rightarrow> iso \<Rightarrow> TemplateEntry list \<Rightarrow> Exercise list" where
  "instantiate gen k now [] = []"
| "instantiate gen k now (t # ts) =
     \<lparr>ex_id = gen k, name = t_name t, variation = t_variation t,
      sets = getDefaultSetsForExercise gen (Suc k) now (t_name t),
      targetRepHint = None, ex_order = t_order t\<rparr>
     # instantiate gen (Suc k + defaultSetCount (t_name t)) now ts"

section \<open>Application state (App.tsx, lines 178-392)\<close>

text \<open>
  The state of the React components that hold sessions: \<^verbatim>\<open>TrainingTracker\<close> (the
  store, the open tab, the active session, the snackbar and its undo action),
  \<^verbatim>\<open>MurphView\<close> (timer and vest settings) and \<^verbatim>\<open>HistoryView\<close> (the session being
  edited).

  A handler is a closure over the variables of the render that created it.
  \<^verbatim>\<open>updateSession\<close> and \<^verbatim>\<open>saveActiveSession\<close> read the variable
  \<^verbatim>\<open>activeSession\<close> of their render, not the state at the time they run, so both take
  the session they closed over as their first argument.  A handler called from the screen
  belongs to the current render and gets the current active session.  The undo action
  stored by \<^verbatim>\<open>showSnackbar\<close> is called later: it is kept as the code of the closure
  together with what it captured.
\<close>

datatype Undo =
    UndoDeleteSet "TrainingSession option" nat nat SetEntry
  | UndoEditDeleteSet nat nat SetEntry
  | UndoUnmounted

datatype Mode = Full | Lite

record App =
  db :: DB
  activeTab :: TrainingType
  activeSession :: "TrainingSession option"
  showHistory :: bool
  snackbar :: "string option"
  undoAction :: "Undo option"
  elapsedTime :: nat
  isRunning :: bool
  showModeSelect :: bool
  selectedMode :: "Mode option"
  vestChecked :: bool
  vestWeight :: real
  editingSession :: "TrainingSession option"
  crashed :: bool

definition initApp :: "DB \<Rightarrow> App" where
  "initApp d =
     \<lparr>db = d, activeTab = Dashboard, activeSession = None, showHistory = True,
      snackbar = None, undoAction = None,
      elapsedTime = 0, isRunning = False, showModeSelect = True, selectedMode = None,
      vestChecked = False, vestWeight = 10,
      editingSession = None, crashed = False\<rparr>"

definition ouml :: string where
  "ouml = [CHR 0xC3, CHR 0xB6]"

definition Uuml :: string where
  "Uuml = [CHR 0xC3, CHR 0x9C]"

definition Auml :: string where
  "Auml = [CHR 0xC3, CHR 0x84]"

text \<open>
  \<^verbatim>\<open>showSnackbar\<close> sets the message and, when an undo closure is given, stores it.  The
  two five-second timers it starts are the events \<open>undoTimeout\<close> and \<open>snackbarTimeout\<close>.
\<close>

definition showSnackbar :: "string \<Rightarrow> Undo option \<Rightarrow> App \<Rightarrow> App" where
  "showSnackbar message undo st =
     (case undo of
        None \<Rightarrow> st\<lparr>snackbar := Some message\<rparr>
      | Some u \<Rightarrow> st\<lparr>snackbar := Some message, undoAction := Some u\<rparr>)"

definition undoTimeout :: "App \<Rightarrow> App" where
  "undoTimeout st = st\<lparr>undoAction := None\<rparr>"

definition snackbarTimeout :: "App \<Rightarrow> App" where
  "snackbarTimeout st = st\<lparr>snackbar := None\<rparr>"

definition isStrengthTab :: "TrainingType \<Rightarrow> bool" where
  "isStrengthTab t = (t = Push \<or> t = Pull \<or> t = Legs_core)"

definition newMurphSession :: "string \<Rightarrow> iso \<Rightarrow> TrainingSession" where
  "newMurphSession i now =
     \<lparr>session_id = i, session_type = Murph, date = now, completed = False, startedAt = now,
      endedAt = None, exercises = [], session_notes = None, location = None, totals = None,
      murphData = Some \<lparr>rounds = Some 0, totalTime = None, isLite = None, weightVest = None,
                        weightVestKg = None\<rparr>,
      runData = None\<rparr>"

definition newRunSession :: "string \<Rightarrow> iso \<Rightarrow> TrainingSession" where
  "newRunSession i now =
     \<lparr>session_id = i, session_type = Run, date = now, completed = False, startedAt = now,
      endedAt = None, exercises = [], session_notes = None, location = None, totals = None,
      murphData = None, runData = Some \<lparr>distance = 0, duration = 0\<rparr>\<rparr>"

definition newSession :: "(nat \<Rightarrow> string) \<Rightarrow> iso \<Rightarrow> TrainingType \<Rightarrow> TemplateEntry list \<Rightarrow> TrainingSession" where
  "newSession gen now t template =
     \<lparr>session_id = gen 0, session_type = t, date = now, completed = False,
      startedAt = now, endedAt = None, exercises = instantiate gen 1 now template,
      session_notes = None, location = None, totals = None, murphData = None,
      runData = None\<rparr>"

definition templateFor :: "TrainingType \<Rightarrow> TemplateEntry list" where
  "templateFor tab =
     (if tab = Push then PUSH_TEMPLATE
      else if tab = Pull then PULL_TEMPLATE
      else if tab = Legs_core then LEGS_TEMPLATE
      else [])"

definition createNewSession :: "(nat \<Rightarrow> string) \<Rightarrow> iso \<Rightarrow> App \<Rightarrow> App" where
  "createNewSession gen now st =
     (let template = templateFor (activeTab st)
      in if activeTab st = Murph then
           st\<lparr>activeSession := Some (newMurphSession (gen 0) now), showHistory := False\<rparr>
         else if activeTab st = Run then
           st\<lparr>activeSession := Some (newRunSession (gen 0) now), showHistory := False\<rparr>
         else if length template = 0 then
           showSnackbar ''Dieser Trainingstyp ist noch nicht implementiert'' None st
         else
           st\<lparr>activeSession := Some (newSession gen now (activeTab st) template),
              showHistory := False\<rparr>)"

text \<open>
  \<^verbatim>\<open>[...prev.sessions.filter(s => s.id !== session.id), session]\<close>, the update of the store
  used by \<^verbatim>\<open>autoSaveSession\<close>, \<^verbatim>\<open>saveActiveSession\<close> and the save of a run.
\<close>

definition upsert :: "TrainingSession \<Rightarrow> DB \<Rightarrow> DB" where
  "upsert session d =
     d\<lparr>sessions := filter (\<lambda>s. session_id s \<noteq> session_id session) (sessions d) @ [session]\<rparr>"

definition autoSaveSession :: "TrainingSession \<Rightarrow> App \<Rightarrow> App" where
  "autoSaveSession session st = st\<lparr>db := upsert session (db st)\<rparr>"

definition countSets :: "Exercise list \<Rightarrow> nat" where
  "countSets es = fold (\<lambda>ex sum. sum + length (sets ex)) es 0"

definition saveActiveSession :: "TrainingSession option \<Rightarrow> iso \<Rightarrow> App \<Rightarrow> App" where
  "saveActiveSession captured now st =
     (case captured of
        None \<Rightarrow> st
      | Some active \<Rightarrow>
          let completedSession = active\<lparr>completed := True, endedAt := Some now\<rparr>;
              completedSession =
                (if session_type active \<noteq> Murph \<and> session_type active \<noteq> Run
                 then completedSession\<lparr>totals := Some \<lparr>volumeKg = Some (calcVolume active),
                                                        setCount = Some (countSets (exercises active))\<rparr>\<rparr>
                 else completedSession)
          in showSnackbar ''Training gespeichert!'' None
               (st\<lparr>db := upsert completedSession (db st), activeSession := None,
                   showHistory := True\<rparr>))"

definition updateSession ::
  "TrainingSession option \<Rightarrow> (TrainingSession \<Rightarrow> TrainingSession) \<Rightarrow> App \<Rightarrow> App" where
  "updateSession captured updater st =
     (case captured of
        None \<Rightarrow> st
      | Some active \<Rightarrow>
          let updated = updater active
          in autoSaveSession updated (st\<lparr>activeSession := Some updated\<rparr>))"

subsection \<open>findLastSet\<close>

text \<open>
  \<^verbatim>\<open>Array.prototype.sort\<close> is stable; with the comparator
  \<^verbatim>\<open>getTime(b.date) - getTime(a.date)\<close> it sorts by descending date, which is a stable
  sort on the negated date.
\<close>

definition completedSessions :: "App \<Rightarrow> TrainingSession list" where
  "completedSessions st =
     sort_key (\<lambda>s. - date s)
       (filter (\<lambda>s. session_type s = activeTab st \<and> completed s
                     \<and> (case activeSession st of None \<Rightarrow> True
                         | Some a \<Rightarrow> session_id s \<noteq> session_id a))
          (sessions (db st)))"

definition matches :: "string \<Rightarrow> string option \<Rightarrow> Exercise \<Rightarrow> bool" where
  "matches exerciseName var ex = (name ex = exerciseName \<and> variation ex = var)"

text \<open>
  The \<^verbatim>\<open>for\<close> loop over the sorted sessions.  A set is an object, so
  \<^verbatim>\<open>exercise.sets[setIndex]\<close> is truthy exactly when the index is in range.
\<close>

fun scanSessions :: "string \<Rightarrow> string option \<Rightarrow> nat \<Rightarrow> TrainingSession list \<Rightarrow> SetEntry option" where
  "scanSessions exerciseName var setIndex [] = None"
| "scanSessions exerciseName var setIndex (session # rest) =
     (case find (matches exerciseName var) (exercises session) of
        None \<Rightarrow> scanSessions exerciseName var setIndex rest
      | Some exercise \<Rightarrow>
          if setIndex < length (sets exercise) then Some (sets exercise ! setIndex)
          else if length (sets exercise) > 0
            then Some (sets exercise ! (length (sets exercise) - 1))
          else scanSessions exerciseName var setIndex rest)"

definition findLastSet :: "App \<Rightarrow> string \<Rightarrow> string option \<Rightarrow> nat \<Rightarrow> SetEntry option" where
  "findLastSet st exerciseName var setIndex =
     scanSessions exerciseName var setIndex (completedSessions st)"

subsection \<open>Import, deletion, history list\<close>

text \<open>
  \<open>imported\<close> is the result of \<^verbatim>\<open>JSON.parse\<close>, \<open>None\<close> when it throws; \<open>replace\<close> is the
  answer to the confirmation dialog.
\<close>

definition importBackup :: "DB option \<Rightarrow> bool \<Rightarrow> App \<Rightarrow> App" where
  "importBackup imported replace st =
     (case imported of
        None \<Rightarrow> showSnackbar ''Fehler beim Importieren!'' None st
      | Some imp \<Rightarrow>
          if replace then
            (showSnackbar ''Backup wiederhergestellt (ersetzt)!'' None (st\<lparr>db := imp\<rparr>))
              \<lparr>activeTab := Dashboard\<rparr>
          else
            let existingIds = set (map session_id (sessions (db st)));
                merged = imp\<lparr>sessions := sessions (db st)
                                 @ filter (\<lambda>s. session_id s \<notin> existingIds) (sessions imp)\<rparr>
            in (showSnackbar (''Backup zusammengef'' @ uuml @ ''hrt!'') None (st\<lparr>db := merged\<rparr>))
                 \<lparr>activeTab := Dashboard\<rparr>)"

definition filteredSessions :: "App \<Rightarrow> TrainingSession list" where
  "filteredSessions st =
     take 10 (sort_key (\<lambda>s. - date s)
       (filter (\<lambda>s. session_type s = activeTab st \<and> completed s) (sessions (db st))))"

definition deleteSession :: "string \<Rightarrow> App \<Rightarrow> App" where
  "deleteSession sessionId st =
     showSnackbar (''Training gel'' @ ouml @ ''scht'') None
       (st\<lparr>db := (db st)\<lparr>sessions := filter (\<lambda>s. session_id s \<noteq> sessionId) (sessions (db st))\<rparr>\<rparr>)"

section \<open>Active strength session (App.tsx, lines 1427-1942)\<close>

text \<open>
  Index-based array operations of the handlers:
  \<^verbatim>\<open>xs.map((x, i) => i === k ? f(x) : x)\<close>, \<^verbatim>\<open>xs.filter((_, i) => i !== k)\<close> and
  \<^verbatim>\<open>[...xs.slice(0, k), x, ...xs.slice(k)]\<close>.
\<close>

fun mapAt :: "nat \<Rightarrow> ('a \<Rightarrow> 'a) \<Rightarrow> 'a list \<Rightarrow> 'a list" where
  "mapAt k f [] = []"
| "mapAt 0 f (x # xs) = f x # xs"
| "mapAt (Suc k) f (x # xs) = x # mapAt k f xs"

fun removeAt :: "nat \<Rightarrow> 'a list \<Rightarrow> 'a list" where
  "removeAt k [] = []"
| "removeAt 0 (x # xs) = xs"
| "removeAt (Suc k) (x # xs) = x # removeAt k xs"

definition insertAt :: "nat \<Rightarrow> 'a \<Rightarrow> 'a list \<Rightarrow> 'a list" where
  "insertAt k x xs = take k xs @ [x] @ drop k xs"

definition addNewExercise ::
  "TrainingSession option \<Rightarrow> (nat \<Rightarrow> string) \<Rightarrow> iso \<Rightarrow> string \<Rightarrow> string option \<Rightarrow> App \<Rightarrow> App" where
  "addNewExercise session gen now n var st =
     (let newExercise =
            \<lparr>ex_id = gen 0, name = n, variation = var,
             sets = [emptySet (gen 1) now, emptySet (gen 2) now, emptySet (gen 3) now],
             targetRepHint = None,
             ex_order = (case session of None \<Rightarrow> 0 | Some s \<Rightarrow> length (exercises s))\<rparr>
      in showSnackbar (n @ '' hinzugef'' @ uuml @ ''gt'') None
           (updateSession session (\<lambda>s. s\<lparr>exercises := exercises s @ [newExercise]\<rparr>) st))"

definition handleLocationChange :: "TrainingSession option \<Rightarrow> string \<Rightarrow> App \<Rightarrow> App" where
  "handleLocationChange session v st =
     (if v = ''custom'' then st
      else updateSession session (\<lambda>s. s\<lparr>location := Some v\<rparr>) st)"

definition saveCustomLocation :: "TrainingSession option \<Rightarrow> string \<Rightarrow> App \<Rightarrow> App" where
  "saveCustomLocation session customLocation st =
     (if trim customLocation \<noteq> [] then
        updateSession session (\<lambda>s. s\<lparr>location := Some (trim customLocation)\<rparr>) st
      else st)"

text \<open>\<^verbatim>\<open>ExerciseCard\<close>, for the exercise at \<open>exIndex\<close>.\<close>

definition updateExercise ::
  "TrainingSession option \<Rightarrow> nat \<Rightarrow> (Exercise \<Rightarrow> Exercise) \<Rightarrow> App \<Rightarrow> App" where
  "updateExercise session exIndex updater st =
     updateSession session (\<lambda>s. s\<lparr>exercises := mapAt exIndex updater (exercises s)\<rparr>) st"

definition addSet :: "TrainingSession option \<Rightarrow> nat \<Rightarrow> string \<Rightarrow> iso \<Rightarrow> App \<Rightarrow> App" where
  "addSet session exIndex i now st =
     updateExercise session exIndex (\<lambda>ex. ex\<lparr>sets := sets ex @ [emptySet i now]\<rparr>) st"

text \<open>
  \<^verbatim>\<open>deleteSet\<close> belongs to a rendered row, so \<open>deletedSet\<close> is the set shown in that
  row.  The undo closure it hands to \<^verbatim>\<open>showSnackbar\<close> calls the \<^verbatim>\<open>updateExercise\<close>
  of the same render, and with it that render's \<^verbatim>\<open>updateSession\<close> and
  \<^verbatim>\<open>activeSession\<close>.
\<close>

definition deleteSet :: "TrainingSession option \<Rightarrow> nat \<Rightarrow> nat \<Rightarrow> SetEntry \<Rightarrow> App \<Rightarrow> App" where
  "deleteSet session exIndex setIndex deletedSet st =
     showSnackbar (''Satz gel'' @ ouml @ ''scht'')
       (Some (UndoDeleteSet session exIndex setIndex deletedSet))
       (updateExercise session exIndex (\<lambda>ex. ex\<lparr>sets := removeAt setIndex (sets ex)\<rparr>) st)"

definition changeVariation :: "TrainingSession option \<Rightarrow> nat \<Rightarrow> string \<Rightarrow> App \<Rightarrow> App" where
  "changeVariation session exIndex v st =
     updateExercise session exIndex (\<lambda>ex. ex\<lparr>variation := Some v\<rparr>) st"

definition removeExercise :: "TrainingSession option \<Rightarrow> nat \<Rightarrow> App \<Rightarrow> App" where
  "removeExercise session exIndex st =
     showSnackbar (Uuml @ ''bung gel'' @ ouml @ ''scht'') None
       (updateSession session (\<lambda>s. s\<lparr>exercises := removeAt exIndex (exercises s)\<rparr>) st)"

text \<open>
  \<^verbatim>\<open>SetRow\<close>, for the set at \<open>setIndex\<close>.  The text handlers take what
  \<^verbatim>\<open>parseNumber(value)\<close> and \<^verbatim>\<open>parseInt(value) || null\<close> returned, as a finite
  number or null.
\<close>

definition updateSetWeight ::
  "TrainingSession option \<Rightarrow> nat \<Rightarrow> nat \<Rightarrow> real option \<Rightarrow> App \<Rightarrow> App" where
  "updateSetWeight session exIndex setIndex parsed st =
     updateExercise session exIndex
       (\<lambda>ex. ex\<lparr>sets := mapAt setIndex (\<lambda>s. s\<lparr>weightKg := parsed\<rparr>) (sets ex)\<rparr>) st"

definition updateSetReps ::
  "TrainingSession option \<Rightarrow> nat \<Rightarrow> nat \<Rightarrow> real option \<Rightarrow> App \<Rightarrow> App" where
  "updateSetReps session exIndex setIndex parsed st =
     updateExercise session exIndex
       (\<lambda>ex. ex\<lparr>sets := mapAt setIndex (\<lambda>s. s\<lparr>reps := parsed\<rparr>) (sets ex)\<rparr>) st"

definition orZero :: "real option \<Rightarrow> real" where
  "orZero v = (case v of None \<Rightarrow> 0 | Some x \<Rightarrow> x)"

definition adjustWeight ::
  "TrainingSession option \<Rightarrow> nat \<Rightarrow> nat \<Rightarrow> SetEntry \<Rightarrow> real \<Rightarrow> real \<Rightarrow> App \<Rightarrow> App" where
  "adjustWeight session exIndex setIndex row delta multiplier st =
     (let current = orZero (weightKg row);
          newValue = max 0 (current + delta * multiplier)
      in updateExercise session exIndex
           (\<lambda>ex. ex\<lparr>sets := mapAt setIndex (\<lambda>s. s\<lparr>weightKg := Some newValue\<rparr>) (sets ex)\<rparr>) st)"

definition adjustReps ::
  "TrainingSession option \<Rightarrow> nat \<Rightarrow> nat \<Rightarrow> SetEntry \<Rightarrow> real \<Rightarrow> App \<Rightarrow> App" where
  "adjustReps session exIndex setIndex row delta st =
     (let current = orZero (reps row);
          newValue = max 0 (current + delta)
      in updateExercise session exIndex
           (\<lambda>ex. ex\<lparr>sets := mapAt setIndex (\<lambda>s. s\<lparr>reps := Some newValue\<rparr>) (sets ex)\<rparr>) st)"

definition applyLast ::
  "TrainingSession option \<Rightarrow> nat \<Rightarrow> nat \<Rightarrow> SetEntry option \<Rightarrow> App \<Rightarrow> App" where
  "applyLast session exIndex setIndex lastSet st =
     (case lastSet of
        None \<Rightarrow> st
      | Some l \<Rightarrow>
          updateExercise session exIndex
            (\<lambda>ex. ex\<lparr>sets := mapAt setIndex (\<lambda>s. s\<lparr>weightKg := weightKg l, reps := reps l\<rparr>)
                               (sets ex)\<rparr>) st)"

section \<open>Murph (App.tsx, lines 1113-1424)\<close>

definition MURPH_LITE_TIME :: nat where
  "MURPH_LITE_TIME = 25 * 60"

definition sessionIsLite :: "TrainingSession \<Rightarrow> bool" where
  "sessionIsLite session =
     (case murphData session of None \<Rightarrow> False
      | Some m \<Rightarrow> (case isLite m of None \<Rightarrow> False | Some b \<Rightarrow> b))"

text \<open>
  \<^verbatim>\<open>{...s.murphData!, k: v}\<close>: the spread of an undefined \<^verbatim>\<open>murphData\<close> has no keys.
\<close>

definition spreadMurph :: "MurphData option \<Rightarrow> MurphData" where
  "spreadMurph m =
     (case m of
        None \<Rightarrow> \<lparr>rounds = None, totalTime = None, isLite = None, weightVest = None,
                   weightVestKg = None\<rparr>
      | Some d \<Rightarrow> d)"

text \<open>
  One firing of the interval started while \<^verbatim>\<open>isRunning\<close> holds.  In the Lite branch
  the function returns before \<^verbatim>\<open>updateSession\<close> is reached.
\<close>

definition tick :: "TrainingSession \<Rightarrow> App \<Rightarrow> App" where
  "tick session st =
     (let newTime = elapsedTime st + 1
      in if sessionIsLite session \<and> newTime \<ge> MURPH_LITE_TIME then
           st\<lparr>isRunning := False, elapsedTime := MURPH_LITE_TIME\<rparr>
         else
           (updateSession (Some session)
              (\<lambda>s. s\<lparr>murphData := Some ((spreadMurph (murphData s))\<lparr>totalTime := Some newTime\<rparr>)\<rparr>)
              st)\<lparr>elapsedTime := newTime\<rparr>)"

definition roundsOf :: "TrainingSession \<Rightarrow> nat" where
  "roundsOf s =
     (case murphData s of None \<Rightarrow> 0
      | Some m \<Rightarrow> (case rounds m of None \<Rightarrow> 0 | Some r \<Rightarrow> r))"

definition addRound :: "TrainingSession \<Rightarrow> App \<Rightarrow> App" where
  "addRound session st =
     updateSession (Some session)
       (\<lambda>s. s\<lparr>murphData := Some ((spreadMurph (murphData s))\<lparr>rounds := Some (roundsOf s + 1)\<rparr>)\<rparr>)
       st"

text \<open>
  \<^verbatim>\<open>handleSave\<close> of the Murph view calls \<^verbatim>\<open>updateSession\<close> and then \<^verbatim>\<open>onSave\<close>, which
  is \<^verbatim>\<open>saveActiveSession\<close> of the same render: it completes the session it closed over.
\<close>

definition murphHandleSave :: "TrainingSession \<Rightarrow> iso \<Rightarrow> App \<Rightarrow> App" where
  "murphHandleSave session now st =
     saveActiveSession (Some session) now
       ((updateSession (Some session)
          (\<lambda>s. s\<lparr>murphData := Some ((spreadMurph (murphData s))
                    \<lparr>totalTime := Some (elapsedTime st),
                     weightVest := Some (vestChecked st),
                     weightVestKg := (if vestChecked st then Some (vestWeight st) else None)\<rparr>)\<rparr>)
          st)\<lparr>isRunning := False\<rparr>)"

definition startMode :: "TrainingSession \<Rightarrow> Mode \<Rightarrow> App \<Rightarrow> App" where
  "startMode session mode st =
     (updateSession (Some session)
        (\<lambda>s. s\<lparr>murphData := Some
                 \<lparr>rounds = Some 0, totalTime = None, isLite = Some (mode = Lite),
                  weightVest = Some (vestChecked st),
                  weightVestKg = (if vestChecked st then Some (vestWeight st) else None)\<rparr>\<rparr>)
        (st\<lparr>selectedMode := Some mode\<rparr>))\<lparr>showModeSelect := False\<rparr>"

section \<open>Run (App.tsx, lines 589-603 and 928-994)\<close>

text \<open>
  \<open>distKm\<close> is \<^verbatim>\<open>parseFloat(distance.replace(',', '.'))\<close>, \<open>None\<close> for not-a-number;
  \<open>mins\<close> and \<open>secs\<close> are \<^verbatim>\<open>parseInt(...) || 0\<close>; \<open>dateTime\<close> is the date and time
  typed in.  \<^verbatim>\<open>onSave\<close> stores the session and closes it.
\<close>

definition runHandleSave :: "TrainingSession \<Rightarrow> real option \<Rightarrow> int \<Rightarrow> int \<Rightarrow> iso \<Rightarrow> App \<Rightarrow> App" where
  "runHandleSave session distKm mins secs dateTime st =
     (let totalSeconds = mins * 60 + secs
      in case distKm of
           None \<Rightarrow> showSnackbar (''Bitte g'' @ uuml @ ''ltige Distanz eingeben'') None st
         | Some d \<Rightarrow>
             if d = 0 \<or> d \<le> 0 then
               showSnackbar (''Bitte g'' @ uuml @ ''ltige Distanz eingeben'') None st
             else if totalSeconds \<le> 0 then
               showSnackbar (''Bitte g'' @ uuml @ ''ltige Zeit eingeben'') None st
             else
               let updatedSession =
                     session\<lparr>date := dateTime, startedAt := dateTime, endedAt := Some dateTime,
                             completed := True,
                             runData := Some \<lparr>distance = d, duration = totalSeconds\<rparr>\<rparr>
               in showSnackbar ''Lauf gespeichert!'' None
                    (st\<lparr>db := upsert updatedSession (db st), activeSession := None,
                        showHistory := True\<rparr>))"

section \<open>Editing a completed session (App.tsx, lines 1944-2232)\<close>

text \<open>
  \<^verbatim>\<open>updateEditingSession\<close> passes a function to the state setter, so it acts on the
  session being edited at the time it runs.  The editor works on a deep copy of the stored
  session, which shares nothing with the store.
\<close>

definition updateEditingSession :: "(TrainingSession \<Rightarrow> TrainingSession) \<Rightarrow> App \<Rightarrow> App" where
  "updateEditingSession updater st =
     (case editingSession st of
        None \<Rightarrow> st
      | Some prev \<Rightarrow> st\<lparr>editingSession := Some (updater prev)\<rparr>)"

definition handleEdit :: "TrainingSession \<Rightarrow> App \<Rightarrow> App" where
  "handleEdit session st = st\<lparr>editingSession := Some session\<rparr>"

definition handleCancelEdit :: "App \<Rightarrow> App" where
  "handleCancelEdit st = st\<lparr>editingSession := None\<rparr>"

definition handleSaveEdit :: "TrainingSession \<Rightarrow> App \<Rightarrow> App" where
  "handleSaveEdit upd st =
     (let updated =
            (if session_type upd \<noteq> Murph \<and> session_type upd \<noteq> Run
             then upd\<lparr>totals := Some \<lparr>volumeKg = Some (calcVolume upd),
                                      setCount = Some (countSets (exercises upd))\<rparr>\<rparr>
             else upd)
      in showSnackbar (Auml @ ''nderungen gespeichert'') None
           (st\<lparr>db := (db st)\<lparr>sessions :=
                   map (\<lambda>s. if session_id s = session_id updated then updated else s)
                     (sessions (db st))\<rparr>,
               editingSession := None\<rparr>))"

definition editDate :: "iso \<Rightarrow> App \<Rightarrow> App" where
  "editDate i st = updateEditingSession (\<lambda>s. s\<lparr>date := i, startedAt := i\<rparr>) st"

definition editLocation :: "string \<Rightarrow> App \<Rightarrow> App" where
  "editLocation v st = updateEditingSession (\<lambda>s. s\<lparr>location := Some v\<rparr>) st"

definition editNotes :: "string \<Rightarrow> App \<Rightarrow> App" where
  "editNotes v st = updateEditingSession (\<lambda>s. s\<lparr>session_notes := Some v\<rparr>) st"

definition editExerciseName :: "nat \<Rightarrow> string \<Rightarrow> App \<Rightarrow> App" where
  "editExerciseName exIdx n st =
     updateEditingSession (\<lambda>s. s\<lparr>exercises := mapAt exIdx (\<lambda>e2. e2\<lparr>name := n\<rparr>) (exercises s)\<rparr>) st"

definition editExerciseVariation :: "nat \<Rightarrow> string \<Rightarrow> App \<Rightarrow> App" where
  "editExerciseVariation exIdx v st =
     updateEditingSession
       (\<lambda>s. s\<lparr>exercises := mapAt exIdx (\<lambda>e2. e2\<lparr>variation := (if v = [] then None else Some v)\<rparr>)
                               (exercises s)\<rparr>) st"

definition editSetWeight :: "nat \<Rightarrow> nat \<Rightarrow> real option \<Rightarrow> App \<Rightarrow> App" where
  "editSetWeight exIdx setIdx parsed st =
     updateEditingSession
       (\<lambda>s. s\<lparr>exercises := mapAt exIdx
                 (\<lambda>ex. ex\<lparr>sets := mapAt setIdx (\<lambda>x. x\<lparr>weightKg := parsed\<rparr>) (sets ex)\<rparr>)
                 (exercises s)\<rparr>) st"

definition editSetReps :: "nat \<Rightarrow> nat \<Rightarrow> real option \<Rightarrow> App \<Rightarrow> App" where
  "editSetReps exIdx setIdx parsed st =
     updateEditingSession
       (\<lambda>s. s\<lparr>exercises := mapAt exIdx
                 (\<lambda>ex. ex\<lparr>sets := mapAt setIdx (\<lambda>x. x\<lparr>reps := parsed\<rparr>) (sets ex)\<rparr>)
                 (exercises s)\<rparr>) st"

definition editDeleteSet :: "nat \<Rightarrow> nat \<Rightarrow> SetEntry \<Rightarrow> App \<Rightarrow> App" where
  "editDeleteSet exIdx setIdx removed st =
     showSnackbar (''Satz gel'' @ ouml @ ''scht'') (Some (UndoEditDeleteSet exIdx setIdx removed))
       (updateEditingSession
          (\<lambda>s. s\<lparr>exercises := mapAt exIdx (\<lambda>ex. ex\<lparr>sets := removeAt setIdx (sets ex)\<rparr>)
                                  (exercises s)\<rparr>) st)"

definition editAddSet :: "nat \<Rightarrow> string \<Rightarrow> iso \<Rightarrow> App \<Rightarrow> App" where
  "editAddSet exIdx i now st =
     updateEditingSession
       (\<lambda>s. s\<lparr>exercises := mapAt exIdx (\<lambda>ex. ex\<lparr>sets := sets ex @ [emptySet i now]\<rparr>)
                               (exercises s)\<rparr>) st"

definition editDeleteExercise :: "nat \<Rightarrow> App \<Rightarrow> App" where
  "editDeleteExercise exIdx st =
     updateEditingSession (\<lambda>s. s\<lparr>exercises := removeAt exIdx (exercises s)\<rparr>) st"

section \<open>The undo button (App.tsx, lines 667-684)\<close>

text \<open>
  Calling the stored closure.  The closure of \<^verbatim>\<open>deleteSet\<close> runs \<^verbatim>\<open>updateExercise\<close>
  on the session it captured.  The closure of the editor runs on the session being edited;
  there \<^verbatim>\<open>clone.exercises[exIdx].sets\<close> throws when the exercise does not exist, which
  takes the page down.  A closure whose \<^verbatim>\<open>HistoryView\<close> is gone sets the state of an
  unmounted component, which does nothing.
\<close>

definition runUndo :: "Undo \<Rightarrow> App \<Rightarrow> App" where
  "runUndo u st =
     (case u of
        UndoDeleteSet session exIndex setIndex deletedSet \<Rightarrow>
          updateExercise session exIndex
            (\<lambda>ex. ex\<lparr>sets := insertAt setIndex deletedSet (sets ex)\<rparr>) st
      | UndoEditDeleteSet exIdx setIdx removed \<Rightarrow>
          (case editingSession st of
             None \<Rightarrow> st
           | Some s \<Rightarrow>
               if exIdx < length (exercises s) then
                 updateEditingSession
                   (\<lambda>s. s\<lparr>exercises := mapAt exIdx
                             (\<lambda>ex. ex\<lparr>sets := insertAt setIdx removed (sets ex)\<rparr>) (exercises s)\<rparr>)
                   st
               else st\<lparr>crashed := True\<rparr>)
      | UndoUnmounted \<Rightarrow> st)"

definition clickUndo :: "App \<Rightarrow> App" where
  "clickUndo st =
     (case undoAction st of
        None \<Rightarrow> st
      | Some u \<Rightarrow> (runUndo u st)\<lparr>undoAction := None, snackbar := None\<rparr>)"

section \<open>The screen: which handler can be called when\<close>

text \<open>
  The conditions under which \<^verbatim>\<open>TrainingTracker\<close> renders each view
  (App.tsx, lines 538-662); a view's handlers exist only while it is rendered.
\<close>

definition activeViewSession :: "App \<Rightarrow> TrainingSession option" where
  "activeViewSession st =
     (case activeSession st of
        None \<Rightarrow> None
      | Some a \<Rightarrow>
          if isStrengthTab (activeTab st) \<and> \<not> showHistory st \<and> session_type a = activeTab st
          then Some a else None)"

definition activeCardShown :: "App \<Rightarrow> bool" where
  "activeCardShown st =
     (case activeSession st of
        None \<Rightarrow> False
      | Some a \<Rightarrow> isStrengthTab (activeTab st) \<and> showHistory st \<and> session_type a = activeTab st)"

definition murphViewSession :: "App \<Rightarrow> TrainingSession option" where
  "murphViewSession st =
     (case activeSession st of
        None \<Rightarrow> None
      | Some a \<Rightarrow> if session_type a = Murph then Some a else None)"

definition runViewSession :: "App \<Rightarrow> TrainingSession option" where
  "runViewSession st =
     (case activeSession st of
        None \<Rightarrow> None
      | Some a \<Rightarrow> if session_type a = Run then Some a else None)"

text \<open>
  The three places where a \<^verbatim>\<open>HistoryView\<close> is rendered: below a strength tab, on the
  Murph tab and on the Run tab, the last two only without an active session.
\<close>

definition historyInstance :: "App \<Rightarrow> nat option" where
  "historyInstance st =
     (if isStrengthTab (activeTab st) then Some 0
      else if activeTab st = Murph \<and> activeSession st = None then Some 1
      else if activeTab st = Run \<and> activeSession st = None then Some 2
      else None)"

definition onCancel :: "App \<Rightarrow> App" where
  "onCancel st = st\<lparr>activeSession := None, showHistory := True\<rparr>"

text \<open>
  What a render does to component state: a \<^verbatim>\<open>MurphView\<close> that is not rendered loses
  its state, and so does a \<^verbatim>\<open>HistoryView\<close> when its place is given up.  The effect of
  \<^verbatim>\<open>MurphView\<close> (lines 1140-1144) takes the stored \<^verbatim>\<open>totalTime\<close> when it is non-zero
  and the timer is at zero.
\<close>

definition unmountMurph :: "App \<Rightarrow> App" where
  "unmountMurph st =
     st\<lparr>elapsedTime := 0, isRunning := False, showModeSelect := True, selectedMode := None,
        vestChecked := False, vestWeight := 10\<rparr>"

definition initTimer :: "TrainingSession \<Rightarrow> App \<Rightarrow> App" where
  "initTimer session st =
     (case murphData session of
        None \<Rightarrow> st
      | Some m \<Rightarrow>
          (case totalTime m of
             None \<Rightarrow> st
           | Some t \<Rightarrow> if t \<noteq> 0 \<and> elapsedTime st = 0 then st\<lparr>elapsedTime := t\<rparr> else st))"

definition unmountHistory :: "App \<Rightarrow> App" where
  "unmountHistory st =
     st\<lparr>editingSession := None,
        undoAction := (case undoAction st of
                         Some (UndoEditDeleteSet exIdx setIdx removed) \<Rightarrow> Some UndoUnmounted
                       | u \<Rightarrow> u)\<rparr>"

definition render :: "App \<Rightarrow> App \<Rightarrow> App" where
  "render prev st =
     (let st1 = (case murphViewSession st of
                   None \<Rightarrow> unmountMurph st
                 | Some session \<Rightarrow> initTimer session st)
      in if historyInstance prev = historyInstance st1 then st1 else unmountHistory st1)"

text \<open>
  The events of the screen, grouped by the view that offers them.  Row handlers exist
  for the rows shown, so their indices are in range; an event whose handler is not on the
  screen leaves the state alone.
\<close>

datatype StrengthEvent =
    SaveActive iso
  | AddNewExercise "nat \<Rightarrow> string" iso string "string option"
  | LocationChange string
  | SaveCustomLocation string
  | ChangeVariation nat string
  | RemoveExercise nat
  | AddSet nat string iso
  | DeleteSet nat nat
  | UpdateSetWeight nat nat "real option"
  | UpdateSetReps nat nat "real option"
  | AdjustWeight nat nat real real
  | AdjustReps nat nat real
  | ApplyLast nat nat

datatype MurphEvent =
    SetWeightVest bool
  | VestMinus
  | VestPlus
  | VestInput "real option"
  | StartMode Mode
  | StartTimer
  | PauseTimer
  | Tick
  | AddRound
  | MurphSave iso

datatype HistoryEvent =
    HandleEdit nat
  | DeleteSession nat
  | CancelEdit
  | SaveEdit
  | EditDate iso
  | EditLocation string
  | EditNotes string
  | EditExerciseName nat string
  | EditExerciseVariation nat string
  | EditSetWeight nat nat "real option"
  | EditSetReps nat nat "real option"
  | EditDeleteSet nat nat
  | EditAddSet nat string iso
  | EditDeleteExercise nat

datatype Event =
    SetActiveTab TrainingType
  | CreateNewSession "nat \<Rightarrow> string" iso
  | Cancel
  | ShowActive
  | ClickUndo
  | UndoTimeout
  | SnackbarTimeout
  | RunSave "real option" int int iso
  | InActiveView StrengthEvent
  | InMurphView MurphEvent
  | InHistoryView HistoryEvent

definition setRowAt :: "TrainingSession \<Rightarrow> nat \<Rightarrow> nat \<Rightarrow> SetEntry option" where
  "setRowAt a exIndex setIndex =
     (if exIndex < length (exercises a) \<and> setIndex < length (sets (exercises a ! exIndex))
      then Some (sets (exercises a ! exIndex) ! setIndex) else None)"

text \<open>\<^verbatim>\<open>ActiveSessionView\<close> with its exercise cards and set rows, showing session \<open>a\<close>.\<close>

primrec handleStrength :: "StrengthEvent \<Rightarrow> TrainingSession \<Rightarrow> App \<Rightarrow> App" where
  "handleStrength (SaveActive now) a st = saveActiveSession (Some a) now st"
| "handleStrength (AddNewExercise gen now n var) a st = addNewExercise (Some a) gen now n var st"
| "handleStrength (LocationChange v) a st = handleLocationChange (Some a) v st"
| "handleStrength (SaveCustomLocation v) a st = saveCustomLocation (Some a) v st"
| "handleStrength (ChangeVariation exIndex v) a st =
     (if exIndex < length (exercises a) then changeVariation (Some a) exIndex v st else st)"
| "handleStrength (RemoveExercise exIndex) a st =
     (if exIndex < length (exercises a) then removeExercise (Some a) exIndex st else st)"
| "handleStrength (AddSet exIndex i now) a st =
     (if exIndex < length (exercises a) then addSet (Some a) exIndex i now st else st)"
| "handleStrength (DeleteSet exIndex setIndex) a st =
     (case setRowAt a exIndex setIndex of None \<Rightarrow> st
      | Some row \<Rightarrow> deleteSet (Some a) exIndex setIndex row st)"
| "handleStrength (UpdateSetWeight exIndex setIndex parsed) a st =
     (case setRowAt a exIndex setIndex of None \<Rightarrow> st
      | Some row \<Rightarrow> updateSetWeight (Some a) exIndex setIndex parsed st)"
| "handleStrength (UpdateSetReps exIndex setIndex parsed) a st =
     (case setRowAt a exIndex setIndex of None \<Rightarrow> st
      | Some row \<Rightarrow> updateSetReps (Some a) exIndex setIndex parsed st)"
| "handleStrength (AdjustWeight exIndex setIndex delta multiplier) a st =
     (case setRowAt a exIndex setIndex of None \<Rightarrow> st
      | Some row \<Rightarrow> adjustWeight (Some a) exIndex setIndex row delta multiplier st)"
| "handleStrength (AdjustReps exIndex setIndex delta) a st =
     (case setRowAt a exIndex setIndex of None \<Rightarrow> st
      | Some row \<Rightarrow> adjustReps (Some a) exIndex setIndex row delta st)"
| "handleStrength (ApplyLast exIndex setIndex) a st =
     (case setRowAt a exIndex setIndex of None \<Rightarrow> st
      | Some row \<Rightarrow>
          applyLast (Some a) exIndex setIndex
            (findLastSet st (name (exercises a ! exIndex)) (variation (exercises a ! exIndex))
               setIndex) st)"

text \<open>
  \<^verbatim>\<open>MurphView\<close> showing session \<open>a\<close>: the mode screen first, the workout screen after
  \<^verbatim>\<open>startMode\<close>; the interval fires while \<^verbatim>\<open>isRunning\<close> holds.
\<close>

primrec handleMurph :: "MurphEvent \<Rightarrow> TrainingSession \<Rightarrow> App \<Rightarrow> App" where
  "handleMurph (SetWeightVest b) a st = (if showModeSelect st then st\<lparr>vestChecked := b\<rparr> else st)"
| "handleMurph VestMinus a st =
     (if showModeSelect st \<and> vestChecked st
      then st\<lparr>vestWeight := max 5 (vestWeight st - 2.5)\<rparr> else st)"
| "handleMurph VestPlus a st =
     (if showModeSelect st \<and> vestChecked st
      then st\<lparr>vestWeight := vestWeight st + 2.5\<rparr> else st)"
| "handleMurph (VestInput v) a st =
     (if showModeSelect st \<and> vestChecked st
      then (case v of None \<Rightarrow> st | Some x \<Rightarrow> if x \<ge> 0 then st\<lparr>vestWeight := x\<rparr> else st)
      else st)"
| "handleMurph (StartMode mode) a st = (if showModeSelect st then startMode a mode st else st)"
| "handleMurph StartTimer a st =
     (if \<not> showModeSelect st \<and> \<not> isRunning st then st\<lparr>isRunning := True\<rparr> else st)"
| "handleMurph PauseTimer a st =
     (if \<not> showModeSelect st \<and> isRunning st then st\<lparr>isRunning := False\<rparr> else st)"
| "handleMurph Tick a st = (if isRunning st then tick a st else st)"
| "handleMurph AddRound a st =
     (if \<not> showModeSelect st \<and> \<not> (\<not> sessionIsLite a \<and> roundsOf a \<ge> 20)
      then addRound a st else st)"
| "handleMurph (MurphSave now) a st =
     (if \<not> showModeSelect st then murphHandleSave a now st else st)"

text \<open>
  \<^verbatim>\<open>HistoryView\<close>: the list of the ten latest completed sessions of the tab while nothing
  is edited, the editor otherwise.
\<close>

primrec handleHistory :: "HistoryEvent \<Rightarrow> App \<Rightarrow> App" where
  "handleHistory (HandleEdit k) st =
     (if editingSession st = None \<and> k < length (filteredSessions st)
      then handleEdit (filteredSessions st ! k) st else st)"
| "handleHistory (DeleteSession k) st =
     (if editingSession st = None \<and> k < length (filteredSessions st)
      then deleteSession (session_id (filteredSessions st ! k)) st else st)"
| "handleHistory CancelEdit st = handleCancelEdit st"
| "handleHistory SaveEdit st =
     (case editingSession st of None \<Rightarrow> st | Some e \<Rightarrow> handleSaveEdit e st)"
| "handleHistory (EditDate i) st = editDate i st"
| "handleHistory (EditLocation v) st = editLocation v st"
| "handleHistory (EditNotes v) st = editNotes v st"
| "handleHistory (EditExerciseName exIdx n) st = editExerciseName exIdx n st"
| "handleHistory (EditExerciseVariation exIdx v) st = editExerciseVariation exIdx v st"
| "handleHistory (EditSetWeight exIdx setIdx parsed) st = editSetWeight exIdx setIdx parsed st"
| "handleHistory (EditSetReps exIdx setIdx parsed) st = editSetReps exIdx setIdx parsed st"
| "handleHistory (EditDeleteSet exIdx setIdx) st =
     (case editingSession st of None \<Rightarrow> st
      | Some e \<Rightarrow>
          (case setRowAt e exIdx setIdx of None \<Rightarrow> st
           | Some removed \<Rightarrow> editDeleteSet exIdx setIdx removed st))"
| "handleHistory (EditAddSet exIdx i now) st = editAddSet exIdx i now st"
| "handleHistory (EditDeleteExercise exIdx) st = editDeleteExercise exIdx st"

primrec handle :: "Event \<Rightarrow> App \<Rightarrow> App" where
  "handle (SetActiveTab t) st = st\<lparr>activeTab := t\<rparr>"
| "handle (CreateNewSession gen now) st =
     (if activeTab st \<noteq> Dashboard \<and> activeSession st = None
      then createNewSession gen now st else st)"
| "handle Cancel st =
     (if activeViewSession st \<noteq> None \<or> murphViewSession st \<noteq> None \<or> runViewSession st \<noteq> None
      then onCancel st else st)"
| "handle ShowActive st = (if activeCardShown st then st\<lparr>showHistory := False\<rparr> else st)"
| "handle ClickUndo st = (if snackbar st \<noteq> None then clickUndo st else st)"
| "handle UndoTimeout st = undoTimeout st"
| "handle SnackbarTimeout st = snackbarTimeout st"
| "handle (RunSave distKm mins secs dateTime) st =
     (case runViewSession st of None \<Rightarrow> st
      | Some a \<Rightarrow> runHandleSave a distKm mins secs dateTime st)"
| "handle (InActiveView e) st =
     (case activeViewSession st of None \<Rightarrow> st | Some a \<Rightarrow> handleStrength e a st)"
| "handle (InMurphView e) st =
     (case murphViewSession st of None \<Rightarrow> st | Some a \<Rightarrow> handleMurph e a st)"
| "handle (InHistoryView e) st =
     (if historyInstance st \<noteq> None then handleHistory e st else st)"

definition step :: "Event \<Rightarrow> App \<Rightarrow> App" where
  "step e st = (if crashed st then st else render st (handle e st))"

definition run :: "Event list \<Rightarrow> App \<Rightarrow> App" where
  "run es st = fold step es st"

text \<open>The sessions a state holds: stored, active, being edited, or captured by the undo closure.\<close>

definition undoSessions :: "Undo option \<Rightarrow> TrainingSession set" where
  "undoSessions u =
     (case u of
        Some (UndoDeleteSet (Some s) exIndex setIndex deletedSet) \<Rightarrow> {s}
      | _ \<Rightarrow> {})"

definition sessionsOf :: "App \<Rightarrow> TrainingSession set" where
  "sessionsOf st =
     set (sessions (db st)) \<union> set_option (activeSession st) \<union> set_option (editingSession st)
       \<union> undoSessions (undoAction st)"

section \<open>Properties of sessions and states\<close>

text \<open>
  The three alternatives of the specification's exclusivity rule and the rule itself:
  exactly the alternative that belongs to the type of the session holds.
\<close>

definition strengthAlt :: "TrainingSession \<Rightarrow> bool" where
  "strengthAlt s = (exercises s \<noteq> [] \<or> totals s \<noteq> None)"

definition murphAlt :: "TrainingSession \<Rightarrow> bool" where
  "murphAlt s = (murphData s \<noteq> None)"

definition runAlt :: "TrainingSession \<Rightarrow> bool" where
  "runAlt s = (runData s \<noteq> None)"

definition exactlyOneKeyed :: "TrainingSession \<Rightarrow> bool" where
  "exactlyOneKeyed s =
     (case session_type s of
        Murph \<Rightarrow> \<not> strengthAlt s \<and> murphAlt s \<and> \<not> runAlt s
      | Run \<Rightarrow> \<not> strengthAlt s \<and> \<not> murphAlt s \<and> runAlt s
      | _ \<Rightarrow> strengthAlt s \<and> \<not> murphAlt s \<and> \<not> runAlt s)"

text \<open>An unfinished strength session from which every exercise has been removed.\<close>

definition emptiedStrength :: "TrainingSession \<Rightarrow> bool" where
  "emptiedStrength s =
     (isStrengthTab (session_type s) \<and> \<not> completed s \<and> exercises s = [] \<and> totals s = None
      \<and> murphData s = None \<and> runData s = None)"

text \<open>What the handlers keep true of every session they hold.\<close>

definition typed :: "TrainingSession \<Rightarrow> bool" where
  "typed s =
     (session_type s \<noteq> Dashboard
      \<and> ((murphData s \<noteq> None) = (session_type s = Murph))
      \<and> ((runData s \<noteq> None) = (session_type s = Run))
      \<and> (if session_type s = Murph \<or> session_type s = Run
          then exercises s = [] \<and> totals s = None
          else \<not> completed s \<or> totals s \<noteq> None))"

definition undoTyped :: "Undo option \<Rightarrow> bool" where
  "undoTyped u =
     (case u of
        Some (UndoDeleteSet (Some s) exIndex setIndex deletedSet) \<Rightarrow> typed s
      | _ \<Rightarrow> True)"

definition good :: "App \<Rightarrow> bool" where
  "good st =
     (list_all typed (sessions (db st)) \<and> pred_option typed (activeSession st)
      \<and> pred_option typed (editingSession st) \<and> undoTyped (undoAction st))"

text \<open>
  The \<open>totalTime\<close> stored in a session, and the state of a Lite workout on the workout
  screen: the timer shows \<open>n\<close> seconds and the active session has \<open>totalTime\<close> \<open>p\<close>.
\<close>

definition sessionTotalTime :: "TrainingSession \<Rightarrow> nat option" where
  "sessionTotalTime s = (case murphData s of None \<Rightarrow> None | Some m \<Rightarrow> totalTime m)"

definition activeTotalTime :: "App \<Rightarrow> nat option" where
  "activeTotalTime st =
     (case activeSession st of None \<Rightarrow> None | Some a \<Rightarrow> sessionTotalTime a)"

definition liteTimer :: "App \<Rightarrow> nat \<Rightarrow> nat option \<Rightarrow> bool" where
  "liteTimer st n p =
     (\<not> crashed st \<and> \<not> showModeSelect st \<and> elapsedTime st = n \<and> activeTotalTime st = p
      \<and> (case activeSession st of None \<Rightarrow> False
          | Some a \<Rightarrow> session_type a = Murph \<and> sessionIsLite a))"

text \<open>The active strength view is on the screen and shows session \<open>a\<close>.\<close>

definition inActiveView :: "App \<Rightarrow> TrainingSession \<Rightarrow> bool" where
  "inActiveView st a =
     (\<not> crashed st \<and> activeSession st = Some a \<and> isStrengthTab (activeTab st)
      \<and> \<not> showHistory st \<and> session_type a = activeTab st)"

section \<open>Example data\<close>

definition exampleSet :: "string \<Rightarrow> real option \<Rightarrow> real option \<Rightarrow> SetEntry" where
  "exampleSet i w r = \<lparr>set_id = i, weightKg = w, reps = r, set_notes = None, createdAt = 0\<rparr>"

definition exampleExercise :: "string \<Rightarrow> string \<Rightarrow> SetEntry list \<Rightarrow> Exercise" where
  "exampleExercise i n ss =
     \<lparr>ex_id = i, name = n, variation = None, sets = ss, targetRepHint = None, ex_order = 0\<rparr>"

definition exampleSession :: "string \<Rightarrow> TrainingType \<Rightarrow> iso \<Rightarrow> bool \<Rightarrow> Exercise list \<Rightarrow> TrainingSession" where
  "exampleSession i t d c es =
     \<lparr>session_id = i, session_type = t, date = d, completed = c, startedAt = d, endedAt = None,
      exercises = es, session_notes = None, location = None, totals = None, murphData = None,
      runData = None\<rparr>"

definition unloggedSession :: TrainingSession where
  "unloggedSession =
     exampleSession ''s1'' Push 0 False
       [exampleExercise ''e1'' ''Dips'' [exampleSet ''a'' (Some 20) None, exampleSet ''b'' None (Some 8)],
        exampleExercise ''e2'' ''Military Press'' [exampleSet ''c'' None None]]"

definition loggedSession :: TrainingSession where
  "loggedSession =
     exampleSession ''s2'' Pull 50 False
       [exampleExercise ''e3'' Klimmzuege [exampleSet ''d'' (Some 10) (Some 8), exampleSet ''e'' None (Some 6)],
        exampleExercise ''e4'' Kreuzheben [exampleSet ''f'' (Some 100) (Some 5)]]"

definition storedSession :: TrainingSession where
  "storedSession = exampleSession ''s0'' Pull 10 True [exampleExercise ''e0'' Kreuzheben []]"

definition exampleApp :: App where
  "exampleApp =
     (initApp \<lparr>version = 1, sessions = [storedSession, loggedSession]\<rparr>)
       \<lparr>activeTab := Pull, activeSession := Some loggedSession, showHistory := False\<rparr>"

definition backup :: DB where
  "backup = \<lparr>version = 1, sessions = [(exampleSession ''s0'' Push 99 True [])]\<rparr>"

definition klimmExercise :: Exercise where
  "klimmExercise =
     exampleExercise ''k'' Klimmzuege
       [exampleSet ''k1'' (Some 0) (Some 10), exampleSet ''k2'' (Some 0) (Some 9),
        exampleSet ''k3'' (Some 0) (Some 8), exampleSet ''k4'' (Some 0) (Some 7),
        exampleSet ''k5'' (Some 5) (Some 4)]"

definition klimmApp :: App where
  "klimmApp =
     (initApp \<lparr>version = 1, sessions = [exampleSession ''p1'' Pull 20 True [klimmExercise]]\<rparr>)
       \<lparr>activeTab := Pull\<rparr>"

text \<open>
  The push scenario: open the Push tab, start a session, type 80 into the weight field
  and 5 into the repetitions field of the first set of the second exercise
  (Bankdruecken), finish the training.
\<close>

definition exampleIds :: "nat \<Rightarrow> string" where
  "exampleIds k = ''id'' @ replicate k (CHR ''+'')"

definition pushEvents :: "(nat \<Rightarrow> string) \<Rightarrow> iso \<Rightarrow> iso \<Rightarrow> Event list" where
  "pushEvents gen now t =
     [SetActiveTab Push, CreateNewSession gen now,
      InActiveView (UpdateSetWeight 1 0 (Some 80)), InActiveView (UpdateSetReps 1 0 (Some 5)),
      InActiveView (SaveActive t)]"

definition pushWeighted :: "(nat \<Rightarrow> string) \<Rightarrow> iso \<Rightarrow> TrainingSession" where
  "pushWeighted gen now =
     (newSession gen now Push PUSH_TEMPLATE)
       \<lparr>exercises := mapAt 1 (\<lambda>ex. ex\<lparr>sets := mapAt 0 (\<lambda>s. s\<lparr>weightKg := Some 80\<rparr>) (sets ex)\<rparr>)
                        (exercises (newSession gen now Push PUSH_TEMPLATE))\<rparr>"

definition pushLogged :: "(nat \<Rightarrow> string) \<Rightarrow> iso \<Rightarrow> TrainingSession" where
  "pushLogged gen now =
     (pushWeighted gen now)
       \<lparr>exercises := mapAt 1 (\<lambda>ex. ex\<lparr>sets := mapAt 0 (\<lambda>s. s\<lparr>reps := Some 5\<rparr>) (sets ex)\<rparr>)
                        (exercises (pushWeighted gen now))\<rparr>"

text \<open>
  A pull session started from the template; its first exercise (Klimmzuege) has five
  sets, which take the ids 2 to 6 of the supply.
\<close>

definition activeSets :: "App \<Rightarrow> nat \<Rightarrow> SetEntry list" where
  "activeSets st k = (case activeSession st of None \<Rightarrow> [] | Some s \<Rightarrow> sets (exercises s ! k))"

definition pullStarted :: App where
  "pullStarted = run [SetActiveTab Pull, CreateNewSession exampleIds 0] (initApp initDB)"

text \<open>A Murph Lite workout with the timer started, and the same after 1499 ticks.\<close>

definition liteStarted :: App where
  "liteStarted =
     run [SetActiveTab Murph, CreateNewSession exampleIds 0, InMurphView (StartMode Lite),
          InMurphView StartTimer] (initApp initDB)"

definition liteAt1499 :: App where
  "liteAt1499 = run (replicate 1499 (InMurphView Tick)) liteStarted"

text \<open>
  A push session started from the template from which the exercises are removed one by
  one, always the first.
\<close>

definition pushEmptied :: App where
  "pushEmptied =
     run ([SetActiveTab Push, CreateNewSession exampleIds 0]
          @ replicate 7 (InActiveView (RemoveExercise 0))) (initApp initDB)"

definition emptiedPush :: TrainingSession where
  "emptiedPush = (newSession exampleIds 0 Push PUSH_TEMPLATE)\<lparr>exercises := []\<rparr>"

section \<open>Volume\<close>

lemma addSetVolume_contribution: "addSetVolume st tot = tot + setContribution st"
  by (simp add: addSetVolume_def setContribution_def bothLogged_def split: option.splits)

lemma fold_addSetVolume: "fold addSetVolume ss tot = tot + (\<Sum>st \<leftarrow> ss. setContribution st)"
  by (induction ss arbitrary: tot) (simp_all add: addSetVolume_contribution)

lemma fold_exercises_volume:
  "fold (\<lambda>ex tot. fold addSetVolume (sets ex) tot) es tot
     = tot + (\<Sum>ex \<leftarrow> es. \<Sum>st \<leftarrow> sets ex. setContribution st)"
  by (induction es arbitrary: tot) (simp_all add: fold_addSetVolume)

lemma sum_list_filter_bothLogged:
  "(\<Sum>st \<leftarrow> filter bothLogged ss. the (weightKg st) * the (reps st)) = (\<Sum>st \<leftarrow> ss. setContribution st)"
  by (induction ss) (simp_all add: setContribution_def)

lemma sum_list_concat_map: "(\<Sum>x \<leftarrow> concat (map f xs). g x) = (\<Sum>y \<leftarrow> xs. \<Sum>x \<leftarrow> f y. g x)"
  by (induction xs) simp_all

lemma sum_list_all_zero: "\<forall>x \<in> set xs. f x = (0::real) \<Longrightarrow> (\<Sum>x \<leftarrow> xs. f x) = 0"
  by (induction xs) simp_all

lemma calcVolume_nested_sum:
  "calcVolume session = (\<Sum>ex \<leftarrow> exercises session. \<Sum>st \<leftarrow> sets ex. setContribution st)"
  by (simp add: calcVolume_def fold_exercises_volume)

lemma calcVolume_flat_sum:
  "calcVolume session = (\<Sum>st \<leftarrow> allSets session. setContribution st)"
  by (simp add: calcVolume_nested_sum allSets_def sum_list_concat_map)

lemma calcVolume_eq_spec: "calcVolume session = volumeOf_spec session"
  by (simp add: calcVolume_flat_sum volumeOf_spec_def sum_list_filter_bothLogged)

text \<open>
  C1.  For every session the volume computed by \<open>calcVolume\<close> is the sum of weight times
  repetitions over the sets of all exercises that have both fields; a set with a null
  field contributes 0, and a session in which every set has a null field has volume 0.
\<close>

theorem calcVolume_is_volume:
  "calcVolume session = volumeOf_spec session
   \<and> calcVolume session = (\<Sum>ex \<leftarrow> exercises session. \<Sum>st \<leftarrow> sets ex. setContribution st)
   \<and> (\<forall>st. weightKg st = None \<or> reps st = None \<longrightarrow> setContribution st = 0)
   \<and> ((\<forall>st \<in> set (allSets session). weightKg st = None \<or> reps st = None) \<longrightarrow> calcVolume session = 0)"
proof -
  have nested: "calcVolume session = (\<Sum>ex \<leftarrow> exercises session. \<Sum>st \<leftarrow> sets ex. setContribution st)"
    by (rule calcVolume_nested_sum)
  have flat: "calcVolume session = (\<Sum>st \<leftarrow> allSets session. setContribution st)"
    by (rule calcVolume_flat_sum)
  have spec: "calcVolume session = volumeOf_spec session"
    by (rule calcVolume_eq_spec)
  have null: "\<forall>st. weightKg st = None \<or> reps st = None \<longrightarrow> setContribution st = 0"
    by (auto simp: setContribution_def bothLogged_def)
  have zero: "(\<forall>st \<in> set (allSets session). weightKg st = None \<or> reps st = None) \<longrightarrow> calcVolume session = 0"
  proof
    assume a: "\<forall>st \<in> set (allSets session). weightKg st = None \<or> reps st = None"
    then have "\<forall>st \<in> set (allSets session). setContribution st = 0"
      using null by blast
    then have "(\<Sum>st \<leftarrow> allSets session. setContribution st) = 0"
      by (rule sum_list_all_zero)
    then show "calcVolume session = 0" by (simp add: flat)
  qed
  from spec nested null zero show ?thesis by blast
qed

theorem calcVolume_is_volume_witness:
  "length (allSets unloggedSession) = 3 \<and> calcVolume unloggedSession = 0"
proof -
  have all_null: "\<forall>st \<in> set (allSets unloggedSession). weightKg st = None \<or> reps st = None"
    by (simp add: allSets_def unloggedSession_def exampleSession_def exampleExercise_def
        exampleSet_def)
  have len: "length (allSets unloggedSession) = 3"
    by (simp add: allSets_def unloggedSession_def exampleSession_def exampleExercise_def)
  from all_null len calcVolume_is_volume [of unloggedSession] show ?thesis by blast
qed

section \<open>Finalization\<close>

lemma fold_countSets:
  "fold (\<lambda>ex sum. sum + length (sets ex)) es n = n + (\<Sum>ex \<leftarrow> es. length (sets ex))"
  by (induction es arbitrary: n) simp_all

lemma countSets_sum: "countSets es = (\<Sum>ex \<leftarrow> es. length (sets ex))"
  by (simp add: countSets_def fold_countSets)

lemma countSets_allSets: "countSets (exercises session) = length (allSets session)"
  by (simp add: countSets_sum allSets_def length_concat comp_def)

lemma saveActiveSession_sessions:
  "sessions (db (saveActiveSession (Some a) now st))
     = filter (\<lambda>s. session_id s \<noteq> session_id a) (sessions (db st))
       @ [if session_type a \<noteq> Murph \<and> session_type a \<noteq> Run
          then a\<lparr>completed := True, endedAt := Some now,
                 totals := Some \<lparr>volumeKg = Some (calcVolume a),
                                 setCount = Some (countSets (exercises a))\<rparr>\<rparr>
          else a\<lparr>completed := True, endedAt := Some now\<rparr>]"
  by (simp add: saveActiveSession_def showSnackbar_def upsert_def Let_def)

lemma saveActiveSession_version:
  "version (db (saveActiveSession (Some a) now st)) = version (db st)"
  by (simp add: saveActiveSession_def showSnackbar_def upsert_def Let_def)

lemma saveActiveSession_active:
  "activeSession (saveActiveSession (Some a) now st) = None"
  by (simp add: saveActiveSession_def showSnackbar_def Let_def)

text \<open>
  C2.  Finalizing an active session that is neither a Murph nor a run stores, as the last
  session of the store, a session that is completed, has \<open>endedAt\<close> set to the time of the
  call, whose \<open>totals.setCount\<close> is the sum of the lengths of the set arrays of all its
  exercises (every set counts, logged or not) and whose \<open>totals.volumeKg\<close> is the volume of
  the session.
\<close>

theorem finalize_strength_totals:
  assumes "activeSession st = Some a"
    and "session_type a \<noteq> Murph" and "session_type a \<noteq> Run"
  shows "last (sessions (db (saveActiveSession (activeSession st) now st)))
           \<in> set (sessions (db (saveActiveSession (activeSession st) now st)))
    \<and> completed (last (sessions (db (saveActiveSession (activeSession st) now st))))
    \<and> endedAt (last (sessions (db (saveActiveSession (activeSession st) now st)))) = Some now
    \<and> totals (last (sessions (db (saveActiveSession (activeSession st) now st))))
        = Some \<lparr>volumeKg = Some (volumeOf_spec a),
                 setCount = Some (\<Sum>ex \<leftarrow> exercises a. length (sets ex))\<rparr>
    \<and> (\<Sum>ex \<leftarrow> exercises a. length (sets ex)) = length (allSets a)
    \<and> session_id (last (sessions (db (saveActiveSession (activeSession st) now st)))) = session_id a
    \<and> activeSession (saveActiveSession (activeSession st) now st) = None"
proof -
  let ?c = "last (sessions (db (saveActiveSession (Some a) now st)))"
  have c: "?c = a\<lparr>completed := True, endedAt := Some now,
                   totals := Some \<lparr>volumeKg = Some (calcVolume a),
                                   setCount = Some (countSets (exercises a))\<rparr>\<rparr>"
    using assms(2,3) by (simp add: saveActiveSession_sessions)
  have "completed ?c" and "endedAt ?c = Some now" and "session_id ?c = session_id a"
    by (simp_all add: c)
  moreover have "totals ?c = Some \<lparr>volumeKg = Some (volumeOf_spec a),
                                   setCount = Some (\<Sum>ex \<leftarrow> exercises a. length (sets ex))\<rparr>"
    by (simp add: c calcVolume_eq_spec countSets_sum)
  moreover have "(\<Sum>ex \<leftarrow> exercises a. length (sets ex)) = length (allSets a)"
    using countSets_allSets [of a] by (simp add: countSets_sum)
  moreover have "?c \<in> set (sessions (db (saveActiveSession (Some a) now st)))"
    by (simp add: saveActiveSession_sessions)
  ultimately show ?thesis
    using assms(1) by (simp add: saveActiveSession_active)
qed

theorem finalize_strength_totals_witness:
  "session_type loggedSession = Pull
   \<and> totals (last (sessions (db (saveActiveSession (activeSession exampleApp) 77 exampleApp))))
       = Some \<lparr>volumeKg = Some 580, setCount = Some 3\<rparr>
   \<and> endedAt (last (sessions (db (saveActiveSession (activeSession exampleApp) 77 exampleApp))))
       = Some 77"
proof -
  have act: "activeSession exampleApp = Some loggedSession"
    by (simp add: exampleApp_def)
  have ty: "session_type loggedSession = Pull"
    by (simp add: loggedSession_def exampleSession_def)
  have vol: "volumeOf_spec loggedSession = 580"
    by (simp add: volumeOf_spec_def allSets_def bothLogged_def loggedSession_def
        exampleSession_def exampleExercise_def exampleSet_def)
  have cnt: "(\<Sum>ex \<leftarrow> exercises loggedSession. length (sets ex)) = 3"
    by (simp add: loggedSession_def exampleSession_def exampleExercise_def)
  from finalize_strength_totals [OF act, of 77] ty vol cnt show ?thesis by simp
qed

text \<open>
  C10.  Finalizing the active session changes, in the stored session, the fields
  \<open>completed\<close>, \<open>endedAt\<close> and \<open>totals\<close> only (and \<open>totals\<close> only when the session is neither
  a Murph nor a run): putting the old values of these three fields back gives the active
  session again, so id, type, date, startedAt, exercises with all their sets, location and
  notes are as before.  The sessions with another id are kept as they are and in their
  order, and the version of the store is kept.
\<close>

theorem finalize_frame:
  assumes "activeSession st = Some a"
  shows "sessions (db (saveActiveSession (activeSession st) now st))
           = filter (\<lambda>s. session_id s \<noteq> session_id a) (sessions (db st))
             @ [last (sessions (db (saveActiveSession (activeSession st) now st)))]
    \<and> (last (sessions (db (saveActiveSession (activeSession st) now st))))
         \<lparr>completed := completed a, endedAt := endedAt a, totals := totals a\<rparr> = a
    \<and> (session_type a = Murph \<or> session_type a = Run \<longrightarrow>
         totals (last (sessions (db (saveActiveSession (activeSession st) now st)))) = totals a)
    \<and> filter (\<lambda>s. session_id s \<noteq> session_id a)
         (sessions (db (saveActiveSession (activeSession st) now st)))
       = filter (\<lambda>s. session_id s \<noteq> session_id a) (sessions (db st))
    \<and> version (db (saveActiveSession (activeSession st) now st)) = version (db st)"
proof -
  let ?st' = "saveActiveSession (Some a) now st"
  let ?c = "last (sessions (db ?st'))"
  have ss: "sessions (db ?st') = filter (\<lambda>s. session_id s \<noteq> session_id a) (sessions (db st)) @ [?c]"
    by (simp add: saveActiveSession_sessions)
  have restored: "?c\<lparr>completed := completed a, endedAt := endedAt a, totals := totals a\<rparr> = a"
    by (simp add: saveActiveSession_sessions)
  have keep: "session_type a = Murph \<or> session_type a = Run \<longrightarrow> totals ?c = totals a"
    by (auto simp: saveActiveSession_sessions)
  have cid: "session_id ?c = session_id a"
    by (simp add: saveActiveSession_sessions)
  have others: "filter (\<lambda>s. session_id s \<noteq> session_id a) (sessions (db ?st'))
                  = filter (\<lambda>s. session_id s \<noteq> session_id a) (sessions (db st))"
    by (subst ss) (simp add: cid)
  from ss restored keep others saveActiveSession_version [of a now st] assms show ?thesis
    by simp
qed

theorem finalize_frame_witness:
  "sessions (db (saveActiveSession (activeSession exampleApp) 77 exampleApp))
     = [storedSession, loggedSession\<lparr>completed := True, endedAt := Some 77,
          totals := Some \<lparr>volumeKg = Some 580, setCount = Some 3\<rparr>\<rparr>]"
proof -
  have act: "activeSession exampleApp = Some loggedSession"
    by (simp add: exampleApp_def)
  have ids: "session_id storedSession \<noteq> session_id loggedSession"
    by (simp add: storedSession_def loggedSession_def exampleSession_def)
  have vol: "calcVolume loggedSession = 580"
    by (simp add: calcVolume_def addSetVolume_def loggedSession_def
        exampleSession_def exampleExercise_def exampleSet_def)
  have cnt: "countSets (exercises loggedSession) = 3"
    by (simp add: countSets_def loggedSession_def exampleSession_def exampleExercise_def)
  have ty: "session_type loggedSession = Pull"
    by (simp add: loggedSession_def exampleSession_def)
  have db: "sessions (db exampleApp) = [storedSession, loggedSession]"
    by (simp add: exampleApp_def initApp_def)
  from finalize_frame [OF act, of 77] show ?thesis
    by (simp add: act saveActiveSession_sessions db ids vol cnt ty)
qed

section \<open>Import\<close>

lemma importBackup_merge_sessions:
  "sessions (db (importBackup (Some imp) False st))
     = sessions (db st)
       @ filter (\<lambda>s. session_id s \<notin> session_id ` set (sessions (db st))) (sessions imp)"
  by (simp add: importBackup_def showSnackbar_def Let_def)

text \<open>
  C5.  Merging an imported store keeps the sessions of the current store, unchanged and
  in place, and appends the imported sessions whose id is not an id of the current store,
  and only those.  An imported session whose id is already there is dropped, so importing
  a backup whose only session has an id of the current store leaves the sessions as they
  were.
\<close>

theorem merge_keeps_existing:
  "take (length (sessions (db st))) (sessions (db (importBackup (Some imp) False st)))
     = sessions (db st)
   \<and> drop (length (sessions (db st))) (sessions (db (importBackup (Some imp) False st)))
     = filter (\<lambda>s. session_id s \<notin> session_id ` set (sessions (db st))) (sessions imp)
   \<and> (\<forall>s \<in> set (sessions imp).
        s \<in> set (drop (length (sessions (db st))) (sessions (db (importBackup (Some imp) False st))))
        \<longleftrightarrow> session_id s \<notin> session_id ` set (sessions (db st)))
   \<and> (sessions imp = [x] \<and> session_id x \<in> session_id ` set (sessions (db st))
        \<longrightarrow> sessions (db (importBackup (Some imp) False st)) = sessions (db st))"
  by (auto simp: importBackup_merge_sessions)

theorem merge_keeps_existing_witness:
  "sessions (db (importBackup (Some backup) False exampleApp)) = [storedSession, loggedSession]
   \<and> length (sessions (db (importBackup (Some backup) False exampleApp)))
       = length (sessions (db exampleApp))"
proof -
  have db: "sessions (db exampleApp) = [storedSession, loggedSession]"
    by (simp add: exampleApp_def initApp_def)
  have one: "sessions backup = [exampleSession ''s0'' Push 99 True []]"
    by (simp add: backup_def)
  have hit: "session_id (exampleSession ''s0'' Push 99 True [])
               \<in> session_id ` set (sessions (db exampleApp))"
    by (simp add: db storedSession_def exampleSession_def)
  from merge_keeps_existing [of exampleApp backup "exampleSession ''s0'' Push 99 True []"] one hit
  have "sessions (db (importBackup (Some backup) False exampleApp)) = sessions (db exampleApp)"
    by blast
  then show ?thesis by (simp add: db)
qed

section \<open>Last performance lookup\<close>

lemma scanSessions_skip:
  "\<forall>p \<in> set pre. \<forall>ex \<in> set (exercises p). \<not> matches n v ex
   \<Longrightarrow> scanSessions n v i (pre @ rest) = scanSessions n v i rest"
  by (induction pre) (simp_all add: find_None_iff [THEN iffD2])

lemma scanSessions_none:
  "\<forall>p \<in> set cs. \<forall>ex \<in> set (exercises p). \<not> matches n v ex \<Longrightarrow> scanSessions n v i cs = None"
  using scanSessions_skip [of cs n v i "[]"] by simp

lemma scanSessions_first:
  assumes "\<forall>p \<in> set pre. \<forall>ex \<in> set (exercises p). \<not> matches n v ex"
    and "find (matches n v) (exercises s) = Some ex"
  shows "i < length (sets ex) \<Longrightarrow> scanSessions n v i (pre @ s # post) = Some (sets ex ! i)"
    and "\<not> i < length (sets ex) \<Longrightarrow> sets ex \<noteq> []
           \<Longrightarrow> scanSessions n v i (pre @ s # post) = Some (last (sets ex))"
  using assms by (simp_all add: scanSessions_skip last_conv_nth)

lemma completedSessions_set:
  "set (completedSessions st)
     = {s \<in> set (sessions (db st)). session_type s = activeTab st \<and> completed s
          \<and> (\<forall>a. activeSession st = Some a \<longrightarrow> session_id s \<noteq> session_id a)}"
  by (auto simp: completedSessions_def split: option.splits)

lemma completedSessions_descending:
  "sorted_wrt (\<lambda>a b. date b \<le> date a) (completedSessions st)"
proof -
  have "sorted (map (\<lambda>s. - date s) (completedSessions st))"
    by (simp add: completedSessions_def)
  then show ?thesis by (simp add: sorted_map)
qed

text \<open>
  C3.  \<open>findLastSet\<close> scans the completed sessions of the open tab, the active session's id
  left out, from the latest date to the earliest.  At the first session that has an
  exercise with exactly this name and variation it takes the first such exercise and
  returns its set at \<open>setIndex\<close> if there is one, else its last set if it has sets.  If no
  such session has a matching exercise it returns null.  With five sets and
  \<open>setIndex = 10\<close> the result is the set at index 4.
\<close>

theorem findLastSet_two_tier:
  "sorted_wrt (\<lambda>a b. date b \<le> date a) (completedSessions st)
   \<and> set (completedSessions st)
       = {s \<in> set (sessions (db st)). session_type s = activeTab st \<and> completed s
            \<and> (\<forall>a. activeSession st = Some a \<longrightarrow> session_id s \<noteq> session_id a)}
   \<and> (\<forall>ex. matches n v ex \<longleftrightarrow> name ex = n \<and> variation ex = v)
   \<and> (\<forall>pre s post ex.
         completedSessions st = pre @ s # post
         \<and> (\<forall>p \<in> set pre. \<forall>e \<in> set (exercises p). \<not> matches n v e)
         \<and> find (matches n v) (exercises s) = Some ex
         \<longrightarrow> (setIndex < length (sets ex)
                \<longrightarrow> findLastSet st n v setIndex = Some (sets ex ! setIndex))
           \<and> (\<not> setIndex < length (sets ex) \<and> sets ex \<noteq> []
                \<longrightarrow> findLastSet st n v setIndex = Some (last (sets ex)))
           \<and> (length (sets ex) = 5 \<longrightarrow> findLastSet st n v 10 = Some (sets ex ! 4)))
   \<and> ((\<forall>p \<in> set (completedSessions st). \<forall>e \<in> set (exercises p). \<not> matches n v e)
        \<longrightarrow> findLastSet st n v setIndex = None)"
proof -
  have tiers: "(setIndex < length (sets ex)
                  \<longrightarrow> findLastSet st n v setIndex = Some (sets ex ! setIndex))
             \<and> (\<not> setIndex < length (sets ex) \<and> sets ex \<noteq> []
                  \<longrightarrow> findLastSet st n v setIndex = Some (last (sets ex)))
             \<and> (length (sets ex) = 5 \<longrightarrow> findLastSet st n v 10 = Some (sets ex ! 4))"
    if cs: "completedSessions st = pre @ s # post"
      and skip: "\<forall>p \<in> set pre. \<forall>e \<in> set (exercises p). \<not> matches n v e"
      and hit: "find (matches n v) (exercises s) = Some ex"
    for pre s post ex
  proof -
    have five: "findLastSet st n v 10 = Some (sets ex ! 4)" if "length (sets ex) = 5"
    proof -
      from that have short: "\<not> 10 < length (sets ex)" and some: "sets ex \<noteq> []" by auto
      then have "scanSessions n v 10 (pre @ s # post) = Some (last (sets ex))"
        using scanSessions_first(2) [OF skip hit] by blast
      moreover from that some have "last (sets ex) = sets ex ! 4"
        by (simp add: last_conv_nth)
      ultimately show ?thesis by (simp add: findLastSet_def cs)
    qed
    show ?thesis
      using scanSessions_first [OF skip hit, of setIndex post] five
      by (simp add: findLastSet_def cs)
  qed
  have none: "(\<forall>p \<in> set (completedSessions st). \<forall>e \<in> set (exercises p). \<not> matches n v e)
                \<longrightarrow> findLastSet st n v setIndex = None"
    by (simp add: findLastSet_def scanSessions_none)
  have m: "\<forall>ex. matches n v ex \<longleftrightarrow> name ex = n \<and> variation ex = v"
    by (simp add: matches_def)
  from completedSessions_descending [of st] completedSessions_set [of st] m tiers none
  show ?thesis by blast
qed

theorem findLastSet_two_tier_witness:
  "length (sets klimmExercise) = 5
   \<and> findLastSet klimmApp Klimmzuege None 10 = Some (exampleSet ''k5'' (Some 5) (Some 4))"
proof -
  have cs: "completedSessions klimmApp = [] @ exampleSession ''p1'' Pull 20 True [klimmExercise] # []"
    by (simp add: completedSessions_def klimmApp_def initApp_def exampleSession_def)
  have hit: "find (matches Klimmzuege None) (exercises (exampleSession ''p1'' Pull 20 True [klimmExercise]))
               = Some klimmExercise"
    by (simp add: exampleSession_def matches_def klimmExercise_def exampleExercise_def)
  have five: "length (sets klimmExercise) = 5"
    by (simp add: klimmExercise_def exampleExercise_def)
  have fourth: "sets klimmExercise ! 4 = exampleSet ''k5'' (Some 5) (Some 4)"
    by (simp add: klimmExercise_def exampleExercise_def)
  have skip: "\<forall>p \<in> set []. \<forall>e \<in> set (exercises p). \<not> matches Klimmzuege None e"
    by simp
  from findLastSet_two_tier [of klimmApp Klimmzuege None 10] cs hit five skip
  have "findLastSet klimmApp Klimmzuege None 10 = Some (sets klimmExercise ! 4)"
    by blast
  with five fourth show ?thesis by simp
qed

section \<open>Evaluating events\<close>

lemma run_Nil [simp]: "run [] st = st"
  by (simp add: run_def)

lemma run_Cons [simp]: "run (e # es) st = run es (step e st)"
  by (simp add: run_def)

lemma run_append: "run (es @ fs) st = run fs (run es st)"
  by (simp add: run_def)

lemma updateSession_Some:
  "updateSession (Some a) u st = st\<lparr>activeSession := Some (u a), db := upsert (u a) (db st)\<rparr>"
  by (simp add: updateSession_def autoSaveSession_def Let_def)

lemma updateExercise_Some:
  "updateExercise (Some a) k f st
     = st\<lparr>activeSession := Some (a\<lparr>exercises := mapAt k f (exercises a)\<rparr>),
          db := upsert (a\<lparr>exercises := mapAt k f (exercises a)\<rparr>) (db st)\<rparr>"
  by (simp add: updateExercise_def updateSession_Some)

lemma showSnackbar_fields [simp]:
  "db (showSnackbar m u st) = db st"
  "activeTab (showSnackbar m u st) = activeTab st"
  "activeSession (showSnackbar m u st) = activeSession st"
  "showHistory (showSnackbar m u st) = showHistory st"
  "editingSession (showSnackbar m u st) = editingSession st"
  "crashed (showSnackbar m u st) = crashed st"
  "snackbar (showSnackbar m u st) = Some m"
  "undoAction (showSnackbar m u st) = (case u of None \<Rightarrow> undoAction st | Some x \<Rightarrow> Some x)"
  "elapsedTime (showSnackbar m u st) = elapsedTime st"
  "isRunning (showSnackbar m u st) = isRunning st"
  "showModeSelect (showSnackbar m u st) = showModeSelect st"
  by (simp_all add: showSnackbar_def split: option.splits)

lemma unmountMurph_fields [simp]:
  "db (unmountMurph st) = db st"
  "activeTab (unmountMurph st) = activeTab st"
  "activeSession (unmountMurph st) = activeSession st"
  "showHistory (unmountMurph st) = showHistory st"
  "editingSession (unmountMurph st) = editingSession st"
  "crashed (unmountMurph st) = crashed st"
  "snackbar (unmountMurph st) = snackbar st"
  "undoAction (unmountMurph st) = undoAction st"
  by (simp_all add: unmountMurph_def)

lemma initTimer_fields [simp]:
  "db (initTimer a st) = db st"
  "activeTab (initTimer a st) = activeTab st"
  "activeSession (initTimer a st) = activeSession st"
  "showHistory (initTimer a st) = showHistory st"
  "editingSession (initTimer a st) = editingSession st"
  "crashed (initTimer a st) = crashed st"
  "snackbar (initTimer a st) = snackbar st"
  "undoAction (initTimer a st) = undoAction st"
  "isRunning (initTimer a st) = isRunning st"
  "showModeSelect (initTimer a st) = showModeSelect st"
  by (simp_all add: initTimer_def split: option.splits)

lemma unmountHistory_fields [simp]:
  "db (unmountHistory st) = db st"
  "activeTab (unmountHistory st) = activeTab st"
  "activeSession (unmountHistory st) = activeSession st"
  "showHistory (unmountHistory st) = showHistory st"
  "crashed (unmountHistory st) = crashed st"
  "snackbar (unmountHistory st) = snackbar st"
  "elapsedTime (unmountHistory st) = elapsedTime st"
  "isRunning (unmountHistory st) = isRunning st"
  "showModeSelect (unmountHistory st) = showModeSelect st"
  by (simp_all add: unmountHistory_def)

lemma render_fields [simp]:
  "db (render prev st) = db st"
  "activeTab (render prev st) = activeTab st"
  "activeSession (render prev st) = activeSession st"
  "showHistory (render prev st) = showHistory st"
  "crashed (render prev st) = crashed st"
  "snackbar (render prev st) = snackbar st"
  by (simp_all add: render_def Let_def split: option.splits)

lemma inActiveView_session: "inActiveView st a \<Longrightarrow> activeViewSession st = Some a"
  by (simp add: inActiveView_def activeViewSession_def)

lemma strength_not_Murph: "isStrengthTab t \<Longrightarrow> t \<noteq> Murph"
  by (auto simp: isStrengthTab_def)

lemma render_strength:
  assumes "activeSession st = Some a" and "session_type a \<noteq> Murph"
    and "isStrengthTab (activeTab prev)" and "activeTab st = activeTab prev"
  shows "render prev st = unmountMurph st"
  using assms
  by (simp add: render_def murphViewSession_def historyInstance_def Let_def)

lemma step_inActiveView:
  assumes v: "inActiveView st a"
    and act: "activeSession (handleStrength e a st) = Some a'"
    and ty: "session_type a' = session_type a"
    and same: "activeTab (handleStrength e a st) = activeTab st"
      "showHistory (handleStrength e a st) = showHistory st"
      "crashed (handleStrength e a st) = crashed st"
  shows "inActiveView (step (InActiveView e) st) a'"
    and "db (step (InActiveView e) st) = db (handleStrength e a st)"
    and "undoAction (step (InActiveView e) st) = undoAction (handleStrength e a st)"
    and "snackbar (step (InActiveView e) st) = snackbar (handleStrength e a st)"
proof -
  let ?h = "handleStrength e a st"
  have h: "handle (InActiveView e) st = ?h"
    using v by (simp add: inActiveView_session)
  have r: "render st ?h = unmountMurph ?h"
    using v act ty same
    by (intro render_strength [where a = a']) (auto simp: inActiveView_def strength_not_Murph)
  have s: "step (InActiveView e) st = unmountMurph ?h"
    using v unfolding step_def h r by (simp add: inActiveView_def)
  show "inActiveView (step (InActiveView e) st) a'"
    using v act ty same unfolding s by (simp add: inActiveView_def)
  show "db (step (InActiveView e) st) = db ?h" unfolding s by simp
  show "undoAction (step (InActiveView e) st) = undoAction ?h" unfolding s by simp
  show "snackbar (step (InActiveView e) st) = snackbar ?h" unfolding s by simp
qed

lemma step_fields:
  "\<not> crashed st \<Longrightarrow> db (step e st) = db (handle e st)"
  "\<not> crashed st \<Longrightarrow> activeTab (step e st) = activeTab (handle e st)"
  "\<not> crashed st \<Longrightarrow> activeSession (step e st) = activeSession (handle e st)"
  "\<not> crashed st \<Longrightarrow> showHistory (step e st) = showHistory (handle e st)"
  "\<not> crashed st \<Longrightarrow> crashed (step e st) = crashed (handle e st)"
  "\<not> crashed st \<Longrightarrow> snackbar (step e st) = snackbar (handle e st)"
  by (simp_all add: step_def)

lemma initApp_fields [simp]:
  "db (initApp d) = d" "activeTab (initApp d) = Dashboard" "activeSession (initApp d) = None"
  "showHistory (initApp d) = True" "crashed (initApp d) = False" "snackbar (initApp d) = None"
  "undoAction (initApp d) = None" "editingSession (initApp d) = None"
  by (simp_all add: initApp_def)

lemma open_tab:
  assumes "\<not> crashed st"
  shows "activeTab (step (SetActiveTab t) st) = t"
    and "activeSession (step (SetActiveTab t) st) = activeSession st"
    and "db (step (SetActiveTab t) st) = db st"
    and "showHistory (step (SetActiveTab t) st) = showHistory st"
    and "\<not> crashed (step (SetActiveTab t) st)"
  using assms by (simp_all add: step_fields)

lemma templateFor_strength: "isStrengthTab t \<Longrightarrow> length (templateFor t) \<noteq> 0"
  by (auto simp: isStrengthTab_def templateFor_def PUSH_TEMPLATE_def PULL_TEMPLATE_def
      LEGS_TEMPLATE_def)

lemma create_strength:
  assumes "\<not> crashed st" and "isStrengthTab (activeTab st)" and "activeSession st = None"
  shows "inActiveView (step (CreateNewSession gen now) st)
           (newSession gen now (activeTab st) (templateFor (activeTab st)))"
    and "db (step (CreateNewSession gen now) st) = db st"
proof -
  have h: "handle (CreateNewSession gen now) st
        = st\<lparr>activeSession := Some (newSession gen now (activeTab st) (templateFor (activeTab st))),
              showHistory := False\<rparr>"
    using assms(2,3) templateFor_strength [OF assms(2)]
    by (auto simp: createNewSession_def isStrengthTab_def Let_def)
  show "inActiveView (step (CreateNewSession gen now) st)
           (newSession gen now (activeTab st) (templateFor (activeTab st)))"
    using assms unfolding inActiveView_def
    by (simp add: step_fields h newSession_def del: handle.simps)
  show "db (step (CreateNewSession gen now) st) = db st"
    using assms by (simp add: step_fields h del: handle.simps)
qed

lemma step_saveActive:
  assumes "inActiveView st a"
  shows "db (step (InActiveView (SaveActive t)) st) = db (saveActiveSession (Some a) t st)"
proof -
  have "\<not> crashed st" using assms by (simp add: inActiveView_def)
  then show ?thesis by (simp add: step_fields inActiveView_session [OF assms])
qed

section \<open>The push scenario\<close>

lemmas template_defs =
  newSession_def PUSH_TEMPLATE_def getDefaultSetsForExercise_def defaultSetCount_def
  Bankdruecken_def Klimmzuege_def Kreuzheben_def uuml_def auml_def emptySet_def upt_rec

lemma push_exercises:
  "map (\<lambda>ex. (name ex = Bankdruecken, length (sets ex)))
       (exercises (newSession gen now Push PUSH_TEMPLATE))
     = [(False, 3), (True, 5), (False, 3), (False, 3), (False, 3), (False, 3), (False, 3)]"
  by (simp add: template_defs)

lemma push_row: "setRowAt (newSession gen now Push PUSH_TEMPLATE) 1 0 \<noteq> None"
  by (simp add: setRowAt_def template_defs)

lemma pushWeighted_row: "setRowAt (pushWeighted gen now) 1 0 \<noteq> None"
  by (simp add: setRowAt_def pushWeighted_def template_defs)

lemma pushLogged_volume: "calcVolume (pushLogged gen now) = 400"
  by (simp add: pushLogged_def pushWeighted_def template_defs calcVolume_def addSetVolume_def)

lemma pushLogged_count: "countSets (exercises (pushLogged gen now)) = 23"
  by (simp add: pushLogged_def pushWeighted_def template_defs countSets_def)

lemma pushLogged_type: "session_type (pushLogged gen now) = Push"
  by (simp add: pushLogged_def pushWeighted_def newSession_def)

lemma push_scenario_final:
  "sessions (db (run (pushEvents gen now t) (initApp initDB)))
     = [(pushLogged gen now)\<lparr>completed := True, endedAt := Some t,
          totals := Some \<lparr>volumeKg = Some 400, setCount = Some 23\<rparr>\<rparr>]"
proof -
  let ?st1 = "step (SetActiveTab Push) (initApp initDB)"
  let ?st2 = "step (CreateNewSession gen now) ?st1"
  let ?st3 = "step (InActiveView (UpdateSetWeight 1 0 (Some 80))) ?st2"
  let ?st4 = "step (InActiveView (UpdateSetReps 1 0 (Some 5))) ?st3"
  let ?a0 = "newSession gen now Push PUSH_TEMPLATE"
  have tab: "activeTab ?st1 = Push" "activeSession ?st1 = None" "\<not> crashed ?st1"
    "db ?st1 = initDB"
    by (simp_all add: open_tab)
  have "inActiveView ?st2 (newSession gen now (activeTab ?st1) (templateFor (activeTab ?st1)))"
    by (rule create_strength) (simp_all add: tab isStrengthTab_def)
  then have v2: "inActiveView ?st2 ?a0"
    by (simp add: tab templateFor_def)
  have same: "db ?st2 = db ?st1"
    by (rule create_strength(2)) (simp_all add: tab isStrengthTab_def)
  have d2: "sessions (db ?st2) = []"
    unfolding same tab(4) by (simp add: initDB_def)
  have v3: "inActiveView ?st3 (pushWeighted gen now)"
    using push_row [of gen now]
    by (intro step_inActiveView(1) [OF v2])
      (auto simp: updateSetWeight_def updateExercise_Some pushWeighted_def)
  have "db ?st3 = db (handleStrength (UpdateSetWeight 1 0 (Some 80)) ?a0 ?st2)"
    using push_row [of gen now]
    by (intro step_inActiveView(2) [OF v2, where a' = "pushWeighted gen now"])
      (auto simp: updateSetWeight_def updateExercise_Some pushWeighted_def)
  then have d3: "sessions (db ?st3) = [pushWeighted gen now]"
    using push_row [of gen now] d2
    by (auto simp: updateSetWeight_def updateExercise_Some pushWeighted_def upsert_def)
  have v4: "inActiveView ?st4 (pushLogged gen now)"
    using pushWeighted_row [of gen now]
    by (intro step_inActiveView(1) [OF v3])
      (auto simp: updateSetReps_def updateExercise_Some pushLogged_def)
  have "db ?st4 = db (handleStrength (UpdateSetReps 1 0 (Some 5)) (pushWeighted gen now) ?st3)"
    using pushWeighted_row [of gen now]
    by (intro step_inActiveView(2) [OF v3, where a' = "pushLogged gen now"])
      (auto simp: updateSetReps_def updateExercise_Some pushLogged_def)
  then have d4: "sessions (db ?st4) = [pushLogged gen now]"
    using pushWeighted_row [of gen now] d3
    by (auto simp: updateSetReps_def updateExercise_Some pushLogged_def upsert_def)
  have "db (step (InActiveView (SaveActive t)) ?st4)
          = db (saveActiveSession (Some (pushLogged gen now)) t ?st4)"
    by (rule step_saveActive [OF v4])
  then have "sessions (db (step (InActiveView (SaveActive t)) ?st4))
          = [(pushLogged gen now)\<lparr>completed := True, endedAt := Some t,
               totals := Some \<lparr>volumeKg = Some (calcVolume (pushLogged gen now)),
                               setCount = Some (countSets (exercises (pushLogged gen now)))\<rparr>\<rparr>]"
    using d4 by (simp add: saveActiveSession_sessions pushLogged_type)
  then show ?thesis
    by (simp add: pushEvents_def pushLogged_volume pushLogged_count del: handle.simps)
qed

text \<open>
  C4 as amended.  Creating a push session from the template, setting the first set of
  Bankdruecken to 80 kg and 5 repetitions and finalizing stores a completed session with
  \<open>totals.volumeKg = 400\<close> and \<open>totals.setCount = 23\<close>: the push template has seven
  exercises, Bankdruecken is the only one of them in the heavy-lift list and gets 5 sets,
  the other six get 3.
\<close>

theorem push_scenario_totals:
  "length (sessions (db (run (pushEvents gen now t) (initApp initDB)))) = 1
   \<and> totals (last (sessions (db (run (pushEvents gen now t) (initApp initDB)))))
     = Some \<lparr>volumeKg = Some 400, setCount = Some 23\<rparr>
   \<and> completed (last (sessions (db (run (pushEvents gen now t) (initApp initDB)))))
   \<and> map (\<lambda>ex. (name ex = Bankdruecken, length (sets ex)))
        (exercises (newSession gen now Push PUSH_TEMPLATE))
     = [(False, 3), (True, 5), (False, 3), (False, 3), (False, 3), (False, 3), (False, 3)]
   \<and> defaultSetCount n = (if n = Bankdruecken \<or> n = Klimmzuege \<or> n = Kreuzheben then 5 else 3)"
  by (simp add: push_scenario_final push_exercises defaultSetCount_def)

theorem push_scenario_totals_witness:
  "totals (last (sessions (db (run (pushEvents exampleIds 0 3600) (initApp initDB)))))
     = Some \<lparr>volumeKg = Some 400, setCount = Some 23\<rparr>"
  using push_scenario_totals [of exampleIds 0 3600 "''Dips''"] by simp

text \<open>The set count stored in this scenario is not the 35 of the specification.\<close>

theorem push_scenario_not_35:
  "totals (last (sessions (db (run (pushEvents exampleIds 0 3600) (initApp initDB)))))
     \<noteq> Some \<lparr>volumeKg = Some 400, setCount = Some 35\<rparr>"
  by (simp add: push_scenario_final)

section \<open>Number input\<close>

lemmas parse_defs = parseNumber_def trim_def isWhiteSpace_def parseFloat_def unsignedLiteral_def
  isDigit_def digitsValue_def scale10_def exponentPart_def

text \<open>
  C9, evaluated.  \<open>parseNumber\<close> takes comma or dot as the decimal separator and maps
  empty, blank and unparseable input to null.  It strips nothing: of \<open>1x5\<close> it parses the
  prefix \<open>1\<close>, and \<open>x5\<close>, which has a digit, is null.
\<close>

theorem parseNumber_keeps_residue:
  "parseNumber ''1x5'' = Some (Finite 1) \<and> parseNumber ''x5'' = None
   \<and> parseNumber ''82,5'' = Some (Finite 82.5) \<and> parseNumber ''82.5'' = Some (Finite 82.5)
   \<and> parseNumber [] = None \<and> parseNumber ''  '' = None \<and> parseNumber ''kg'' = None"
  by (simp add: parse_defs)

section \<open>Deleting a set and undoing it\<close>

lemma step_deleteSet:
  assumes v: "inActiveView st a" and row: "setRowAt a i j = Some r"
  shows "inActiveView (step (InActiveView (DeleteSet i j)) st)
           (a\<lparr>exercises := mapAt i (\<lambda>ex. ex\<lparr>sets := removeAt j (sets ex)\<rparr>) (exercises a)\<rparr>)"
    and "undoAction (step (InActiveView (DeleteSet i j)) st) = Some (UndoDeleteSet (Some a) i j r)"
    and "snackbar (step (InActiveView (DeleteSet i j)) st) \<noteq> None"
proof -
  let ?a' = "a\<lparr>exercises := mapAt i (\<lambda>ex. ex\<lparr>sets := removeAt j (sets ex)\<rparr>) (exercises a)\<rparr>"
  note facts = step_inActiveView [OF v, where e = "DeleteSet i j" and a' = ?a']
  show "inActiveView (step (InActiveView (DeleteSet i j)) st) ?a'"
    by (rule facts(1)) (simp_all add: row deleteSet_def updateExercise_Some)
  show "undoAction (step (InActiveView (DeleteSet i j)) st) = Some (UndoDeleteSet (Some a) i j r)"
    by (subst facts(3)) (simp_all add: row deleteSet_def updateExercise_Some)
  show "snackbar (step (InActiveView (DeleteSet i j)) st) \<noteq> None"
    by (subst facts(4)) (simp_all add: row deleteSet_def updateExercise_Some)
qed

lemma step_clickUndo_deleteSet:
  assumes "\<not> crashed st" and "snackbar st \<noteq> None"
    and "undoAction st = Some (UndoDeleteSet (Some a) i j r)"
  shows "activeSession (step ClickUndo st)
           = Some (a\<lparr>exercises := mapAt i (\<lambda>ex. ex\<lparr>sets := insertAt j r (sets ex)\<rparr>) (exercises a)\<rparr>)"
  using assms by (simp add: step_fields clickUndo_def runUndo_def updateExercise_Some)

lemma undo_after_delete:
  assumes v: "inActiveView st a" and row: "setRowAt a i j = Some r"
  shows "activeSession (run [InActiveView (DeleteSet i j), ClickUndo] st)
           = Some (a\<lparr>exercises := mapAt i (\<lambda>ex. ex\<lparr>sets := insertAt j r (sets ex)\<rparr>) (exercises a)\<rparr>)"
proof -
  let ?st1 = "step (InActiveView (DeleteSet i j)) st"
  have "\<not> crashed ?st1"
    using step_deleteSet(1) [OF v row] by (simp add: inActiveView_def)
  then show ?thesis
    using step_deleteSet(2,3) [OF v row]
    by (simp add: step_clickUndo_deleteSet del: handle.simps)
qed


lemma pullStarted_view: "inActiveView pullStarted (newSession exampleIds 0 Pull PULL_TEMPLATE)"
proof -
  let ?st1 = "step (SetActiveTab Pull) (initApp initDB)"
  have tab: "activeTab ?st1 = Pull" "activeSession ?st1 = None" "\<not> crashed ?st1"
    by (simp_all add: open_tab)
  have "inActiveView (step (CreateNewSession exampleIds 0) ?st1)
          (newSession exampleIds 0 (activeTab ?st1) (templateFor (activeTab ?st1)))"
    by (rule create_strength) (simp_all add: tab isStrengthTab_def)
  then show ?thesis
    by (simp add: pullStarted_def tab templateFor_def del: handle.simps)
qed

lemmas pull_defs =
  newSession_def PULL_TEMPLATE_def getDefaultSetsForExercise_def defaultSetCount_def
  Bankdruecken_def Klimmzuege_def Kreuzheben_def uuml_def auml_def upt_rec

lemma pull_first_sets:
  "sets (exercises (newSession exampleIds 0 Pull PULL_TEMPLATE) ! 0)
     = map (\<lambda>k. emptySet (exampleIds k) 0) [2, 3, 4, 5, 6]"
  by (simp add: pull_defs eval_nat_numeral)

lemma pull_row: "setRowAt (newSession exampleIds 0 Pull PULL_TEMPLATE) 0 1 = Some (emptySet (exampleIds 3) 0)"
  by (simp add: setRowAt_def pull_defs eval_nat_numeral)

lemma pull_after_delete:
  "sets (mapAt 0 (\<lambda>ex. ex\<lparr>sets := removeAt 1 (sets ex)\<rparr>)
           (exercises (newSession exampleIds 0 Pull PULL_TEMPLATE)) ! 0)
     = map (\<lambda>k. emptySet (exampleIds k) 0) [2, 4, 5, 6]"
  by (simp add: pull_defs eval_nat_numeral)

lemma pull_after_undo:
  "sets (mapAt 0 (\<lambda>ex. ex\<lparr>sets := insertAt 1 (emptySet (exampleIds 3) 0) (sets ex)\<rparr>)
           (exercises (newSession exampleIds 0 Pull PULL_TEMPLATE)) ! 0)
     = map (\<lambda>k. emptySet (exampleIds k) 0) [2, 3, 3, 4, 5, 6]"
  by (simp add: pull_defs insertAt_def eval_nat_numeral)

lemma undoAction_unmountHistory_None:
  "undoAction st = None \<Longrightarrow> undoAction (unmountHistory st) = None"
  by (simp add: unmountHistory_def)

lemma undoAction_render_None: "undoAction st = None \<Longrightarrow> undoAction (render prev st) = None"
  by (simp add: render_def Let_def undoAction_unmountHistory_None split: option.splits)

lemma undo_expired:
  assumes v: "inActiveView st a" and row: "setRowAt a i j = Some r"
  shows "activeSession (run [InActiveView (DeleteSet i j), UndoTimeout, ClickUndo] st)
           = activeSession (step (InActiveView (DeleteSet i j)) st)"
proof -
  let ?st1 = "step (InActiveView (DeleteSet i j)) st"
  let ?st2 = "step UndoTimeout ?st1"
  have c1: "\<not> crashed ?st1"
    using step_deleteSet(1) [OF v row] by (simp add: inActiveView_def)
  have c2: "\<not> crashed ?st2"
    using c1 by (simp add: step_fields undoTimeout_def)
  have a2: "activeSession ?st2 = activeSession ?st1"
    using c1 by (simp add: step_fields undoTimeout_def)
  have "step UndoTimeout ?st1 = render ?st1 (undoTimeout ?st1)"
    using c1 by (simp add: step_def)
  moreover have "undoAction (render ?st1 (undoTimeout ?st1)) = None"
    by (rule undoAction_render_None) (simp add: undoTimeout_def)
  ultimately have u2: "undoAction ?st2 = None"
    by simp
  have "handle ClickUndo ?st2 = ?st2"
    unfolding handle.simps clickUndo_def u2 by simp
  then have "activeSession (step ClickUndo ?st2) = activeSession ?st2"
    using c2 by (simp add: step_fields del: handle.simps)
  then show ?thesis
    unfolding run_Cons run_Nil a2 .
qed

text \<open>
  C8, evaluated.  In a pull session started from the template, the first exercise has the
  sets with ids 2 to 6.  Deleting the set at index 1 and pressing undo while it is offered
  gives six sets, the deleted set twice, at indices 1 and 2: the undo closure inserts the
  deleted set into the set array of the session as it was before the deletion, which
  still contains it.  After the undo action has timed out, pressing undo changes nothing.
\<close>

theorem deleteSet_undo_duplicates:
  "activeSets pullStarted 0 = map (\<lambda>k. emptySet (exampleIds k) 0) [2, 3, 4, 5, 6]
   \<and> activeSets (run [InActiveView (DeleteSet 0 1)] pullStarted) 0
       = map (\<lambda>k. emptySet (exampleIds k) 0) [2, 4, 5, 6]
   \<and> activeSets (run [InActiveView (DeleteSet 0 1), ClickUndo] pullStarted) 0
       = map (\<lambda>k. emptySet (exampleIds k) 0) [2, 3, 3, 4, 5, 6]
   \<and> activeSets (run [InActiveView (DeleteSet 0 1), UndoTimeout, ClickUndo] pullStarted) 0
       = map (\<lambda>k. emptySet (exampleIds k) 0) [2, 4, 5, 6]"
proof -
  note v = pullStarted_view
  have a0: "activeSession pullStarted = Some (newSession exampleIds 0 Pull PULL_TEMPLATE)"
    using v by (simp add: inActiveView_def)
  have a1: "activeSession (step (InActiveView (DeleteSet 0 1)) pullStarted)
              = Some ((newSession exampleIds 0 Pull PULL_TEMPLATE)
                  \<lparr>exercises := mapAt 0 (\<lambda>ex. ex\<lparr>sets := removeAt 1 (sets ex)\<rparr>)
                       (exercises (newSession exampleIds 0 Pull PULL_TEMPLATE))\<rparr>)"
    using step_deleteSet(1) [OF v pull_row] by (simp add: inActiveView_def)
  have p0: "activeSets pullStarted 0 = map (\<lambda>k. emptySet (exampleIds k) 0) [2, 3, 4, 5, 6]"
    unfolding activeSets_def a0 using pull_first_sets by simp
  have p1: "activeSets (run [InActiveView (DeleteSet 0 1)] pullStarted) 0
       = map (\<lambda>k. emptySet (exampleIds k) 0) [2, 4, 5, 6]"
    unfolding activeSets_def run_Cons run_Nil a1 using pull_after_delete by simp
  have p2: "activeSets (run [InActiveView (DeleteSet 0 1), ClickUndo] pullStarted) 0
       = map (\<lambda>k. emptySet (exampleIds k) 0) [2, 3, 3, 4, 5, 6]"
    unfolding activeSets_def undo_after_delete [OF v pull_row] using pull_after_undo by simp
  have p3: "activeSets (run [InActiveView (DeleteSet 0 1), UndoTimeout, ClickUndo] pullStarted) 0
       = map (\<lambda>k. emptySet (exampleIds k) 0) [2, 4, 5, 6]"
    unfolding activeSets_def undo_expired [OF v pull_row] a1 using pull_after_delete by simp
  show ?thesis by (intro conjI p0 p1 p2 p3)
qed

section \<open>The Murph Lite timer\<close>

lemma murphViewSession_Some:
  "activeSession st = Some a \<Longrightarrow> session_type a = Murph \<Longrightarrow> murphViewSession st = Some a"
  by (simp add: murphViewSession_def)

lemma historyInstance_cong:
  "activeTab st' = activeTab st \<Longrightarrow> (activeSession st' = None) = (activeSession st = None)
   \<Longrightarrow> historyInstance st' = historyInstance st"
  by (simp add: historyInstance_def)

lemma render_murph:
  assumes "murphViewSession st = Some a"
    and "activeTab st = activeTab prev" and "activeSession prev \<noteq> None"
  shows "render prev st = initTimer a st"
proof -
  have "activeSession st \<noteq> None"
    using assms(1) by (auto simp: murphViewSession_def split: option.splits)
  then have "historyInstance prev = historyInstance (initTimer a st)"
    using assms(2,3) by (intro historyInstance_cong) auto
  then show ?thesis
    by (simp add: render_def assms(1) Let_def)
qed

lemma initTimer_idle:
  "elapsedTime st \<noteq> 0 \<or> activeTotalTime (st\<lparr>activeSession := Some a\<rparr>) = None
     \<Longrightarrow> initTimer a st = st"
  by (auto simp: initTimer_def activeTotalTime_def sessionTotalTime_def split: option.splits)

lemma sessionIsLite_data:
  "sessionIsLite a \<Longrightarrow> \<exists>m. murphData a = Some m \<and> isLite m = Some True"
  by (auto simp: sessionIsLite_def split: option.splits)

lemma tick_below_cap:
  assumes t: "liteTimer st n p" and r: "isRunning st" and n: "Suc n < 1500"
  shows "liteTimer (step (InMurphView Tick) st) (Suc n) (Some (Suc n))"
    and "isRunning (step (InMurphView Tick) st)"
proof -
  from t obtain a where a: "activeSession st = Some a" "session_type a = Murph" "sessionIsLite a"
    by (auto simp: liteTimer_def split: option.splits)
  from a(3) obtain m where m: "murphData a = Some m" "isLite m = Some True"
    using sessionIsLite_data by blast
  let ?a' = "a\<lparr>murphData := Some (m\<lparr>totalTime := Some (Suc n)\<rparr>)\<rparr>"
  let ?st' = "st\<lparr>activeSession := Some ?a', db := upsert ?a' (db st), elapsedTime := Suc n\<rparr>"
  have el: "elapsedTime st = n" and nc: "\<not> crashed st" and ms: "\<not> showModeSelect st"
    using t by (simp_all add: liteTimer_def)
  have h: "handle (InMurphView Tick) st = ?st'"
    using n r by (simp add: murphViewSession_Some [OF a(1,2)] tick_def a(3) el MURPH_LITE_TIME_def
        updateSession_Some m spreadMurph_def Let_def)
  have rd: "render st ?st' = initTimer ?a' ?st'"
    by (rule render_murph) (simp_all add: murphViewSession_def a)
  have it: "initTimer ?a' ?st' = ?st'"
    by (rule initTimer_idle) simp
  have s: "step (InMurphView Tick) st = ?st'"
    unfolding step_def h rd it using nc by simp
  show "liteTimer (step (InMurphView Tick) st) (Suc n) (Some (Suc n))"
    unfolding s using nc ms a m
    by (simp add: liteTimer_def activeTotalTime_def sessionTotalTime_def sessionIsLite_def)
  show "isRunning (step (InMurphView Tick) st)"
    unfolding s using r by simp
qed


lemma tick_at_cap:
  assumes t: "liteTimer st n p" and r: "isRunning st" and n: "1499 \<le> n"
  shows "liteTimer (step (InMurphView Tick) st) 1500 p"
    and "\<not> isRunning (step (InMurphView Tick) st)"
    and "db (step (InMurphView Tick) st) = db st"
proof -
  from t obtain a where a: "activeSession st = Some a" "session_type a = Murph" "sessionIsLite a"
    by (auto simp: liteTimer_def split: option.splits)
  let ?st' = "st\<lparr>isRunning := False, elapsedTime := 1500\<rparr>"
  have el: "elapsedTime st = n" and nc: "\<not> crashed st" and ms: "\<not> showModeSelect st"
    and tt: "activeTotalTime st = p"
    using t by (simp_all add: liteTimer_def)
  have h: "handle (InMurphView Tick) st = ?st'"
    using n r by (simp add: murphViewSession_Some [OF a(1,2)] tick_def a(3) el MURPH_LITE_TIME_def
        Let_def)
  have rd: "render st ?st' = initTimer a ?st'"
    by (rule render_murph) (simp_all add: murphViewSession_def a)
  have it: "initTimer a ?st' = ?st'"
    by (rule initTimer_idle) simp
  have s: "step (InMurphView Tick) st = ?st'"
    unfolding step_def h rd it using nc by simp
  show "liteTimer (step (InMurphView Tick) st) 1500 p"
    unfolding s using nc ms a tt by (simp add: liteTimer_def activeTotalTime_def sessionTotalTime_def)
  show "\<not> isRunning (step (InMurphView Tick) st)"
    unfolding s by simp
  show "db (step (InMurphView Tick) st) = db st"
    unfolding s by simp
qed

lemma start_timer:
  assumes t: "liteTimer st n p" and r: "\<not> isRunning st" and n: "n \<noteq> 0 \<or> p = None"
  shows "liteTimer (step (InMurphView StartTimer) st) n p"
    and "isRunning (step (InMurphView StartTimer) st)"
proof -
  from t obtain a where a: "activeSession st = Some a" "session_type a = Murph" "sessionIsLite a"
    by (auto simp: liteTimer_def split: option.splits)
  let ?st' = "st\<lparr>isRunning := True\<rparr>"
  have el: "elapsedTime st = n" and nc: "\<not> crashed st" and ms: "\<not> showModeSelect st"
    and tt: "activeTotalTime st = p"
    using t by (simp_all add: liteTimer_def)
  have h: "handle (InMurphView StartTimer) st = ?st'"
    using r ms by (simp add: murphViewSession_Some [OF a(1,2)])
  have rd: "render st ?st' = initTimer a ?st'"
    by (rule render_murph) (simp_all add: murphViewSession_def a)
  have it: "initTimer a ?st' = ?st'"
    using n el tt a(1) by (intro initTimer_idle) (auto simp: activeTotalTime_def sessionTotalTime_def)
  have s: "step (InMurphView StartTimer) st = ?st'"
    unfolding step_def h rd it using nc by simp
  show "liteTimer (step (InMurphView StartTimer) st) n p"
    unfolding s using nc ms a tt el by (simp add: liteTimer_def activeTotalTime_def sessionTotalTime_def)
  show "isRunning (step (InMurphView StartTimer) st)"
    unfolding s by simp
qed

lemma ticks_below_cap:
  "liteTimer st n p \<Longrightarrow> isRunning st \<Longrightarrow> n + k < 1500 \<Longrightarrow> 0 < k
   \<Longrightarrow> liteTimer (run (replicate k (InMurphView Tick)) st) (n + k) (Some (n + k))
       \<and> isRunning (run (replicate k (InMurphView Tick)) st)"
proof (induction k arbitrary: st n p)
  case 0
  then show ?case by simp
next
  case (Suc k)
  let ?st1 = "step (InMurphView Tick) st"
  from Suc.prems have below: "Suc n < 1500" by simp
  note one = tick_below_cap [OF Suc.prems(1,2) below]
  show ?case
  proof (cases k)
    case 0
    with one show ?thesis by simp
  next
    case (Suc j)
    with Suc.prems have "Suc n + k < 1500" and "0 < k" by simp_all
    from Suc.IH [OF one this] show ?thesis by simp
  qed
qed


lemma step_murph_shown:
  assumes "\<not> crashed st" and "murphViewSession (handle e st) = Some a"
  shows "showModeSelect (step e st) = showModeSelect (handle e st)"
    and "isRunning (step e st) = isRunning (handle e st)"
    and "elapsedTime (step e st) = elapsedTime (initTimer a (handle e st))"
  using assms by (simp_all add: step_def render_def Let_def)

lemma step_murph_hidden:
  assumes "\<not> crashed st" and "murphViewSession (handle e st) = None"
  shows "showModeSelect (step e st)" and "\<not> isRunning (step e st)"
    and "elapsedTime (step e st) = 0"
  using assms by (simp_all add: step_def render_def Let_def unmountMurph_def)

lemma liteStarted_timer: "liteTimer liteStarted 0 None \<and> isRunning liteStarted"
proof -
  let ?st0 = "initApp initDB"
  let ?st1 = "step (SetActiveTab Murph) ?st0"
  let ?st2 = "step (CreateNewSession exampleIds 0) ?st1"
  let ?st3 = "step (InMurphView (StartMode Lite)) ?st2"
  let ?a = "newMurphSession (exampleIds 0) 0"
  let ?a3 = "?a\<lparr>murphData := Some
                 \<lparr>rounds = Some 0, totalTime = None, isLite = Some True,
                  weightVest = Some (vestChecked ?st2),
                  weightVestKg = (if vestChecked ?st2 then Some (vestWeight ?st2) else None)\<rparr>\<rparr>"
  have f1: "activeTab ?st1 = Murph" "activeSession ?st1 = None" "\<not> crashed ?st1"
    by (simp_all add: open_tab)
  have m1: "showModeSelect ?st1" "\<not> isRunning ?st1" "elapsedTime ?st1 = 0"
    by (rule step_murph_hidden; simp add: murphViewSession_def)+
  have h2: "handle (CreateNewSession exampleIds 0) ?st1
              = ?st1\<lparr>activeSession := Some ?a, showHistory := False\<rparr>"
    by (simp add: f1 createNewSession_def Let_def)
  have v2: "murphViewSession (handle (CreateNewSession exampleIds 0) ?st1) = Some ?a"
    unfolding h2 by (simp add: murphViewSession_def newMurphSession_def)
  have f2: "activeSession ?st2 = Some ?a" "\<not> crashed ?st2" "activeTab ?st2 = Murph"
    using f1 unfolding step_fields(2,3,5) [OF f1(3)] h2 by simp_all
  have m2: "showModeSelect ?st2" "\<not> isRunning ?st2" "elapsedTime ?st2 = 0"
    unfolding step_murph_shown [OF f1(3) v2] h2 using m1
    by (simp_all add: initTimer_def newMurphSession_def)
  have ty: "session_type ?a = Murph"
    by (simp add: newMurphSession_def)
  have h3: "handle (InMurphView (StartMode Lite)) ?st2
              = ?st2\<lparr>selectedMode := Some Lite, activeSession := Some ?a3,
                       db := upsert ?a3 (db ?st2), showModeSelect := False\<rparr>"
    using m2(1) by (simp add: murphViewSession_Some [OF f2(1) ty] startMode_def updateSession_Some)
  have v3: "murphViewSession (handle (InMurphView (StartMode Lite)) ?st2) = Some ?a3"
    unfolding h3 by (simp add: murphViewSession_def newMurphSession_def)
  have f3: "activeSession ?st3 = Some ?a3" "\<not> crashed ?st3"
    using f2 unfolding step_fields(3,5) [OF f2(2)] h3 by simp_all
  have m3: "\<not> showModeSelect ?st3" "\<not> isRunning ?st3" "elapsedTime ?st3 = 0"
    unfolding step_murph_shown [OF f2(2) v3] h3 using m2
    by (simp_all add: initTimer_def newMurphSession_def)
  have t3: "liteTimer ?st3 0 None"
    unfolding liteTimer_def using f3 m3
    by (simp add: activeTotalTime_def sessionTotalTime_def sessionIsLite_def newMurphSession_def)
  from start_timer [OF t3 m3(2)] show ?thesis
    by (simp add: liteStarted_def del: handle.simps)
qed


lemma murph_save_stored:
  assumes t: "liteTimer st n p" and a: "activeSession st = Some a"
  shows "last (sessions (db (step (InMurphView (MurphSave t')) st)))
           = a\<lparr>completed := True, endedAt := Some t'\<rparr>"
proof -
  have ty: "session_type a = Murph" and nc: "\<not> crashed st" and ms: "\<not> showModeSelect st"
    using t a by (simp_all add: liteTimer_def)
  have "db (handle (InMurphView (MurphSave t')) st)
          = db (saveActiveSession (Some a) t'
                 ((updateSession (Some a)
                    (\<lambda>s. s\<lparr>murphData := Some ((spreadMurph (murphData s))
                              \<lparr>totalTime := Some (elapsedTime st),
                               weightVest := Some (vestChecked st),
                               weightVestKg := (if vestChecked st then Some (vestWeight st) else None)\<rparr>)\<rparr>)
                    st)\<lparr>isRunning := False\<rparr>))"
    using ms by (simp add: murphViewSession_Some [OF a ty] murphHandleSave_def)
  then show ?thesis
    unfolding step_fields(1) [OF nc] by (simp add: saveActiveSession_sessions ty)
qed

lemma liteAt1499_timer: "liteTimer liteAt1499 1499 (Some 1499) \<and> isRunning liteAt1499"
  using ticks_below_cap [of liteStarted 0 None 1499] liteStarted_timer
  by (simp add: liteAt1499_def)

text \<open>
  C7, evaluated.  A Murph Lite session is started and the timer ticks 1499 times: the
  timer shows 1499 seconds and \<open>totalTime\<close> of the session is 1499.  The next tick sets the
  timer to 1500 and stops it, but leaves the session alone: \<open>totalTime\<close> stays 1499.
  Starting the timer again and a further tick keep the timer at 1500 and \<open>totalTime\<close> at
  1499, and the session stored by finishing the workout after the cap has \<open>totalTime\<close>
  1499 as well.
\<close>

theorem lite_cap_not_persisted:
  "elapsedTime liteAt1499 = 1499 \<and> isRunning liteAt1499
   \<and> activeTotalTime liteAt1499 = Some 1499
   \<and> elapsedTime (run [InMurphView Tick] liteAt1499) = 1500
   \<and> \<not> isRunning (run [InMurphView Tick] liteAt1499)
   \<and> activeTotalTime (run [InMurphView Tick] liteAt1499) = Some 1499
   \<and> elapsedTime (run [InMurphView Tick, InMurphView StartTimer, InMurphView Tick] liteAt1499) = 1500
   \<and> activeTotalTime (run [InMurphView Tick, InMurphView StartTimer, InMurphView Tick] liteAt1499)
       = Some 1499
   \<and> sessionTotalTime
        (last (sessions (db (run [InMurphView Tick, InMurphView (MurphSave 1500000)] liteAt1499))))
       = Some 1499"
proof -
  let ?st1 = "step (InMurphView Tick) liteAt1499"
  let ?st2 = "step (InMurphView StartTimer) ?st1"
  let ?st3 = "step (InMurphView Tick) ?st2"
  note t0 = liteAt1499_timer [THEN conjunct1] and r0 = liteAt1499_timer [THEN conjunct2]
  note t1 = tick_at_cap(1) [OF t0 r0] and r1 = tick_at_cap(2) [OF t0 r0]
  have t1': "liteTimer ?st1 1500 (Some 1499)" by (rule t1) simp
  have r1': "\<not> isRunning ?st1" by (rule r1) simp
  have t2: "liteTimer ?st2 1500 (Some 1499)" by (rule start_timer(1) [OF t1' r1']) simp
  have r2: "isRunning ?st2" by (rule start_timer(2) [OF t1' r1']) simp
  have t3: "liteTimer ?st3 1500 (Some 1499)" by (rule tick_at_cap(1) [OF t2 r2]) simp
  obtain a where a: "activeSession ?st1 = Some a" "sessionTotalTime a = Some 1499"
    using t1' by (auto simp: liteTimer_def activeTotalTime_def split: option.splits)
  have saved: "sessionTotalTime (last (sessions (db (step (InMurphView (MurphSave 1500000)) ?st1))))
                 = Some 1499"
    unfolding murph_save_stored [OF t1' a(1)] using a(2) by (simp add: sessionTotalTime_def)
  show ?thesis
    using t0 r0 t1' r1' t3 saved unfolding run_Cons run_Nil
    by (simp add: liteTimer_def del: handle.simps)
qed

section \<open>Sessions stay keyed by their type\<close>

lemma mapAt_Nil_iff [simp]: "(mapAt k f xs = []) = (xs = [])"
  by (induction k f xs rule: mapAt.induct) simp_all

lemma removeAt_tl: "removeAt 0 xs = tl xs"
  by (cases xs) simp_all

lemma typed_exercises:
  "typed s \<Longrightarrow> exercises s = [] \<longrightarrow> es = [] \<Longrightarrow> typed (s\<lparr>exercises := es\<rparr>)"
  by (auto simp: typed_def split: if_splits)

lemma typed_exercises_strength:
  "typed s \<Longrightarrow> isStrengthTab (session_type s) \<Longrightarrow> typed (s\<lparr>exercises := es\<rparr>)"
  by (auto simp: typed_def isStrengthTab_def split: if_splits)

lemma typed_mapAt: "typed s \<Longrightarrow> typed (s\<lparr>exercises := mapAt k f (exercises s)\<rparr>)"
  by (rule typed_exercises) simp_all

lemma typed_removeAt: "typed s \<Longrightarrow> typed (s\<lparr>exercises := removeAt k (exercises s)\<rparr>)"
  by (rule typed_exercises) simp_all

lemma typed_meta:
  "typed s \<Longrightarrow> typed (s\<lparr>location := l\<rparr>)"
  "typed s \<Longrightarrow> typed (s\<lparr>session_notes := n\<rparr>)"
  "typed s \<Longrightarrow> typed (s\<lparr>date := d, startedAt := d'\<rparr>)"
  by (auto simp: typed_def split: if_splits)

lemma typed_murphData:
  "typed s \<Longrightarrow> session_type s = Murph \<Longrightarrow> typed (s\<lparr>murphData := Some m\<rparr>)"
  by (auto simp: typed_def split: if_splits)

lemma typed_completed:
  "typed a \<Longrightarrow>
   typed (if session_type a \<noteq> Murph \<and> session_type a \<noteq> Run
          then a\<lparr>completed := True, endedAt := e, totals := Some t\<rparr>
          else a\<lparr>completed := True, endedAt := e\<rparr>)"
  by (auto simp: typed_def split: if_splits)

lemma typed_run_saved:
  "typed a \<Longrightarrow> session_type a = Run \<Longrightarrow>
   typed (a\<lparr>date := d, startedAt := d1, endedAt := e, completed := True, runData := Some r\<rparr>)"
  by (auto simp: typed_def split: if_splits)

lemma typed_totals:
  "typed u \<Longrightarrow> typed (if session_type u \<noteq> Murph \<and> session_type u \<noteq> Run
                        then u\<lparr>totals := Some t\<rparr> else u)"
  by (auto simp: typed_def split: if_splits)

lemma typed_new:
  "typed (newMurphSession i now)" "typed (newRunSession i now)"
  "isStrengthTab t \<Longrightarrow> typed (newSession gen now t template)"
  by (auto simp: typed_def newMurphSession_def newRunSession_def newSession_def isStrengthTab_def)

lemma typed_cases:
  "typed s \<Longrightarrow> (if emptiedStrength s then \<not> strengthAlt s \<and> \<not> murphAlt s \<and> \<not> runAlt s
                  else exactlyOneKeyed s)"
  by (cases "session_type s")
    (auto simp: typed_def emptiedStrength_def strengthAlt_def murphAlt_def runAlt_def
      exactlyOneKeyed_def isStrengthTab_def split: if_splits)


section \<open>States stay good\<close>

lemma good_fields:
  "db st' = db st \<Longrightarrow> activeSession st' = activeSession st
   \<Longrightarrow> editingSession st' = editingSession st \<Longrightarrow> undoAction st' = undoAction st
   \<Longrightarrow> good st' = good st"
  by (simp add: good_def)

lemma list_all_upsert:
  "list_all typed (sessions d) \<Longrightarrow> typed c \<Longrightarrow> list_all typed (sessions (upsert c d))"
  by (simp add: upsert_def list_all_iff)

lemma good_updateSession:
  "good st \<Longrightarrow> typed (u a) \<Longrightarrow> good (updateSession (Some a) u st)"
  by (simp add: updateSession_Some good_def list_all_upsert)

lemma good_updateExercise:
  "good st \<Longrightarrow> typed a \<Longrightarrow> good (updateExercise (Some a) k f st)"
  by (simp add: updateExercise_def good_updateSession typed_mapAt)

lemma good_showSnackbar:
  "good st \<Longrightarrow> undoTyped u \<Longrightarrow> good (showSnackbar m u st)"
  by (cases u) (simp_all add: good_def undoTyped_def)

lemma undoTyped_simps [simp]:
  "undoTyped None" "undoTyped (Some (UndoEditDeleteSet i j r))" "undoTyped (Some UndoUnmounted)"
  "undoTyped (Some (UndoDeleteSet (Some s) i j r)) = typed s"
  "undoTyped (Some (UndoDeleteSet None i j r))"
  by (simp_all add: undoTyped_def)

lemma good_saveActiveSession:
  "good st \<Longrightarrow> typed a \<Longrightarrow> good (saveActiveSession (Some a) now st)"
  unfolding good_def
  by (simp add: saveActiveSession_sessions saveActiveSession_active typed_completed list_all_iff)
    (simp add: saveActiveSession_def showSnackbar_def Let_def)


lemma good_handleStrength:
  assumes g: "good st" and a: "typed a" and ty: "isStrengthTab (session_type a)"
  shows "good (handleStrength e a st)"
proof (cases e)
  case (SaveActive now)
  then show ?thesis by (simp add: good_saveActiveSession g a)
next
  case (AddNewExercise gen now n var)
  then show ?thesis
    by (simp add: addNewExercise_def good_showSnackbar good_updateSession g
        typed_exercises_strength [OF a ty])
next
  case (LocationChange v)
  then show ?thesis
    by (simp add: handleLocationChange_def good_updateSession g typed_meta a)
next
  case (SaveCustomLocation v)
  then show ?thesis
    by (simp add: saveCustomLocation_def good_updateSession g typed_meta a)
next
  case (ChangeVariation i v)
  then show ?thesis by (simp add: changeVariation_def good_updateExercise g a)
next
  case (RemoveExercise i)
  then show ?thesis
    by (simp add: removeExercise_def good_showSnackbar good_updateSession g typed_removeAt a)
next
  case (AddSet i x now)
  then show ?thesis by (simp add: addSet_def good_updateExercise g a)
next
  case (DeleteSet i j)
  then show ?thesis
    by (simp add: deleteSet_def good_showSnackbar good_updateExercise g a split: option.splits)
next
  case (UpdateSetWeight i j w)
  then show ?thesis
    by (simp add: updateSetWeight_def good_updateExercise g a split: option.splits)
next
  case (UpdateSetReps i j w)
  then show ?thesis
    by (simp add: updateSetReps_def good_updateExercise g a split: option.splits)
next
  case (AdjustWeight i j d m)
  then show ?thesis
    by (simp add: adjustWeight_def Let_def good_updateExercise g a split: option.splits)
next
  case (AdjustReps i j d)
  then show ?thesis
    by (simp add: adjustReps_def Let_def good_updateExercise g a split: option.splits)
next
  case (ApplyLast i j)
  then show ?thesis
    by (simp add: applyLast_def good_updateExercise g a split: option.splits)
qed

lemma good_local:
  "good (st\<lparr>vestChecked := b\<rparr>) = good st"
  "good (st\<lparr>vestWeight := w\<rparr>) = good st"
  "good (st\<lparr>isRunning := r\<rparr>) = good st"
  "good (st\<lparr>elapsedTime := n\<rparr>) = good st"
  "good (st\<lparr>showModeSelect := m\<rparr>) = good st"
  "good (st\<lparr>selectedMode := sm\<rparr>) = good st"
  "good (st\<lparr>activeTab := t\<rparr>) = good st"
  "good (st\<lparr>showHistory := h\<rparr>) = good st"
  "good (st\<lparr>crashed := c\<rparr>) = good st"
  "good (st\<lparr>snackbar := sn\<rparr>) = good st"
  by (simp_all add: good_def)

lemma good_handleMurph:
  assumes g: "good st" and a: "typed a" and ty: "session_type a = Murph"
  shows "good (handleMurph e a st)"
proof (cases e)
  case (StartMode mode)
  then show ?thesis
    by (simp add: startMode_def good_local good_updateSession g typed_murphData a ty)
next
  case Tick
  then show ?thesis
    by (simp add: tick_def Let_def good_local good_updateSession g typed_murphData a ty)
next
  case AddRound
  then show ?thesis
    by (simp add: addRound_def good_updateSession g typed_murphData a ty)
next
  case (MurphSave now)
  then show ?thesis
    by (simp add: murphHandleSave_def good_saveActiveSession good_local good_updateSession g
        typed_murphData a ty)
next
  case (VestInput v)
  then show ?thesis by (simp add: good_local g split: option.splits)
qed (simp_all add: good_local g)


lemma good_updateEditingSession:
  "good st \<Longrightarrow> (\<And>e. typed e \<Longrightarrow> typed (u e)) \<Longrightarrow> good (updateEditingSession u st)"
  by (auto simp: updateEditingSession_def good_def split: option.splits)

lemma filteredSessions_subset: "set (filteredSessions st) \<subseteq> set (sessions (db st))"
proof -
  have "set (filteredSessions st)
          \<subseteq> set (sort_key (\<lambda>s. - date s)
                  (filter (\<lambda>s. session_type s = activeTab st \<and> completed s) (sessions (db st))))"
    unfolding filteredSessions_def by (rule set_take_subset)
  then show ?thesis by auto
qed

lemma filteredSessions_typed:
  "good st \<Longrightarrow> k < length (filteredSessions st) \<Longrightarrow> typed (filteredSessions st ! k)"
proof -
  assume g: "good st" and k: "k < length (filteredSessions st)"
  from k have "filteredSessions st ! k \<in> set (filteredSessions st)"
    by (rule nth_mem)
  with filteredSessions_subset [of st] have "filteredSessions st ! k \<in> set (sessions (db st))"
    by blast
  with g show ?thesis
    by (simp add: good_def list_all_iff)
qed

lemma good_handleSaveEdit:
  assumes g: "good st" and e: "typed e"
  shows "good (handleSaveEdit e st)"
proof -
  let ?u = "if session_type e \<noteq> Murph \<and> session_type e \<noteq> Run
            then e\<lparr>totals := Some \<lparr>volumeKg = Some (calcVolume e),
                                    setCount = Some (countSets (exercises e))\<rparr>\<rparr>
            else e"
  have u: "typed ?u" by (rule typed_totals [OF e])
  have "list_all typed (map (\<lambda>s. if session_id s = session_id ?u then ?u else s)
                          (sessions (db st)))"
    using g u by (auto simp: good_def list_all_iff)
  then show ?thesis
    using g by (auto simp: handleSaveEdit_def Let_def good_def list_all_iff)
qed

lemma good_handleHistory:
  assumes g: "good st"
  shows "good (handleHistory e st)"
proof (cases e)
  case (HandleEdit k)
  then show ?thesis
    using g filteredSessions_typed [OF g, of k] by (auto simp: handleEdit_def good_def)
next
  case (DeleteSession k)
  then show ?thesis
    using g by (auto simp: deleteSession_def good_def list_all_iff)
next
  case CancelEdit
  then show ?thesis using g by (simp add: handleCancelEdit_def good_def)
next
  case SaveEdit
  show ?thesis
  proof (cases "editingSession st")
    case None
    then show ?thesis by (simp add: SaveEdit g)
  next
    case (Some x)
    with g have "typed x" by (simp add: good_def)
    then show ?thesis by (simp add: SaveEdit Some good_handleSaveEdit [OF g])
  qed
next
  case (EditDate i)
  then show ?thesis by (simp add: editDate_def good_updateEditingSession g typed_meta)
next
  case (EditLocation v)
  then show ?thesis by (simp add: editLocation_def good_updateEditingSession g typed_meta)
next
  case (EditNotes v)
  then show ?thesis by (simp add: editNotes_def good_updateEditingSession g typed_meta)
next
  case (EditExerciseName i n)
  then show ?thesis by (simp add: editExerciseName_def good_updateEditingSession g typed_mapAt)
next
  case (EditExerciseVariation i v)
  then show ?thesis
    by (simp add: editExerciseVariation_def good_updateEditingSession g typed_mapAt)
next
  case (EditSetWeight i j w)
  then show ?thesis by (simp add: editSetWeight_def good_updateEditingSession g typed_mapAt)
next
  case (EditSetReps i j w)
  then show ?thesis by (simp add: editSetReps_def good_updateEditingSession g typed_mapAt)
next
  case (EditDeleteSet i j)
  then show ?thesis
    by (simp add: editDeleteSet_def good_showSnackbar good_updateEditingSession g typed_mapAt
        split: option.splits)
next
  case (EditAddSet i x now)
  then show ?thesis by (simp add: editAddSet_def good_updateEditingSession g typed_mapAt)
next
  case (EditDeleteExercise i)
  then show ?thesis
    by (simp add: editDeleteExercise_def good_updateEditingSession g typed_removeAt)
qed

lemma good_active: "good st \<Longrightarrow> activeSession st = Some a \<Longrightarrow> typed a"
  by (simp add: good_def)

lemma good_runHandleSave:
  assumes g: "good st" and a: "typed a" and ty: "session_type a = Run"
  shows "good (runHandleSave a d m s t st)"
proof -
  have "good (st\<lparr>db := upsert c (db st), activeSession := None, showHistory := True\<rparr>)"
    if "typed c" for c
    using g that by (simp add: good_def list_all_upsert)
  then show ?thesis
    by (auto simp: runHandleSave_def Let_def good_showSnackbar g typed_run_saved [OF a ty]
        split: option.splits)
qed

lemma good_clickUndo:
  assumes g: "good st"
  shows "good (clickUndo st)"
proof (cases "undoAction st")
  case None
  then show ?thesis by (simp add: clickUndo_def g)
next
  case (Some u)
  have cleared: "good (x\<lparr>undoAction := None, snackbar := None\<rparr>)" if "good x" for x
    using that by (simp add: good_def)
  have "good (runUndo u st)"
  proof (cases u)
    case (UndoDeleteSet session i j r)
    show ?thesis
    proof (cases session)
      case None
      then show ?thesis
        by (simp add: UndoDeleteSet runUndo_def updateExercise_def updateSession_def g)
    next
      case (Some s)
      with g \<open>undoAction st = Some u\<close> UndoDeleteSet have "typed s"
        by (simp add: good_def)
      then show ?thesis
        by (simp add: UndoDeleteSet Some runUndo_def good_updateExercise g)
    qed
  next
    case (UndoEditDeleteSet i j r)
    then show ?thesis
      by (simp add: runUndo_def good_local good_updateEditingSession g typed_mapAt
          split: option.splits)
  next
    case UndoUnmounted
    then show ?thesis by (simp add: runUndo_def g)
  qed
  then show ?thesis
    by (simp add: clickUndo_def Some cleared)
qed


lemma good_createNewSession:
  assumes g: "good st"
  shows "good (createNewSession gen now st)"
proof -
  have started: "good (st\<lparr>activeSession := Some x, showHistory := False\<rparr>)" if "typed x" for x
    using g that by (simp add: good_def)
  have strength: "isStrengthTab (activeTab st)" if "templateFor (activeTab st) \<noteq> []"
    using that by (auto simp: templateFor_def isStrengthTab_def split: if_splits)
  have "good (st\<lparr>activeSession := Some (newSession gen now (activeTab st) (templateFor (activeTab st))),
                 showHistory := False\<rparr>)"
    if "templateFor (activeTab st) \<noteq> []"
    by (intro started typed_new(3) strength that)
  then show ?thesis
    unfolding createNewSession_def Let_def
    by (simp add: started typed_new good_showSnackbar g)
qed

lemma activeViewSession_SomeD:
  "activeViewSession st = Some a \<Longrightarrow> activeSession st = Some a \<and> isStrengthTab (session_type a)"
  by (auto simp: activeViewSession_def split: option.splits if_splits)

lemma murphViewSession_SomeD:
  "murphViewSession st = Some a \<Longrightarrow> activeSession st = Some a \<and> session_type a = Murph"
  by (auto simp: murphViewSession_def split: option.splits if_splits)

lemma runViewSession_SomeD:
  "runViewSession st = Some a \<Longrightarrow> activeSession st = Some a \<and> session_type a = Run"
  by (auto simp: runViewSession_def split: option.splits if_splits)

lemma good_handle:
  assumes g: "good st"
  shows "good (handle e st)"
proof (cases e)
  case (SetActiveTab t)
  then show ?thesis by (simp add: good_local g)
next
  case (CreateNewSession gen now)
  then show ?thesis by (simp add: good_createNewSession g)
next
  case Cancel
  have "good (onCancel st)" using g by (simp add: onCancel_def good_def)
  then show ?thesis by (simp add: Cancel g)
next
  case ShowActive
  then show ?thesis by (simp add: good_local g)
next
  case ClickUndo
  then show ?thesis by (simp add: good_clickUndo g)
next
  case UndoTimeout
  then show ?thesis using g by (simp add: undoTimeout_def good_def)
next
  case SnackbarTimeout
  then show ?thesis by (simp add: snackbarTimeout_def good_local g)
next
  case (RunSave d m s t)
  show ?thesis
  proof (cases "runViewSession st")
    case None
    then show ?thesis by (simp add: RunSave g)
  next
    case (Some a)
    from runViewSession_SomeD [OF Some] good_active [OF g] have "typed a" "session_type a = Run"
      by simp_all
    then show ?thesis by (simp add: RunSave Some good_runHandleSave g)
  qed
next
  case (InActiveView ev)
  show ?thesis
  proof (cases "activeViewSession st")
    case None
    then show ?thesis by (simp add: InActiveView g)
  next
    case (Some a)
    from activeViewSession_SomeD [OF Some] good_active [OF g]
    have "typed a" "isStrengthTab (session_type a)" by simp_all
    then show ?thesis by (simp add: InActiveView Some good_handleStrength g)
  qed
next
  case (InMurphView ev)
  show ?thesis
  proof (cases "murphViewSession st")
    case None
    then show ?thesis by (simp add: InMurphView g)
  next
    case (Some a)
    from murphViewSession_SomeD [OF Some] good_active [OF g]
    have "typed a" "session_type a = Murph" by simp_all
    then show ?thesis by (simp add: InMurphView Some good_handleMurph g)
  qed
next
  case (InHistoryView ev)
  then show ?thesis by (simp add: good_handleHistory g)
qed

lemma good_unmountHistory: "good st \<Longrightarrow> good (unmountHistory st)"
  by (auto simp: unmountHistory_def good_def undoTyped_def split: option.splits Undo.splits)

lemma good_render: "good st \<Longrightarrow> good (render prev st)"
proof -
  assume g: "good st"
  have "good (unmountMurph st)"
    using g by (simp add: good_fields [of "unmountMurph st" st])
  moreover have "good (initTimer a st)" for a
    using g by (simp add: good_fields [of "initTimer a st" st])
  ultimately show ?thesis
    by (simp add: render_def Let_def good_unmountHistory split: option.splits)
qed

lemma good_step: "good st \<Longrightarrow> good (step e st)"
  by (simp add: step_def good_render good_handle)

lemma good_init: "good (initApp initDB)"
  by (simp add: good_def initDB_def)

lemma good_run: "good st \<Longrightarrow> good (run es st)"
  by (induction es arbitrary: st) (simp_all add: good_step del: handle.simps)

lemma good_sessionsOf: "good st \<Longrightarrow> s \<in> sessionsOf st \<Longrightarrow> typed s"
  by (auto simp: good_def sessionsOf_def undoSessions_def undoTyped_def list_all_iff
      split: option.splits Undo.splits)

text \<open>
  C6 as amended.  Every session held by a state that the events reach from the empty
  store (stored, active, being edited or captured by the undo action) satisfies exactly the
  alternative keyed by its type: exercises or totals for a strength session, \<open>murphData\<close>
  for a Murph, \<open>runData\<close> for a run.  The one exception is an unfinished strength session
  from which all exercises have been removed; it satisfies none of the three.
\<close>

theorem reachable_sessions_keyed:
  "\<forall>s \<in> sessionsOf (run es (initApp initDB)).
     if emptiedStrength s then \<not> strengthAlt s \<and> \<not> murphAlt s \<and> \<not> runAlt s
     else exactlyOneKeyed s"
  using good_sessionsOf [OF good_run [OF good_init]] typed_cases by blast


lemma step_removeFirst:
  assumes v: "inActiveView st a" and ne: "exercises a \<noteq> []"
  shows "inActiveView (step (InActiveView (RemoveExercise 0)) st) (a\<lparr>exercises := tl (exercises a)\<rparr>)"
    and "last (sessions (db (step (InActiveView (RemoveExercise 0)) st)))
           = a\<lparr>exercises := tl (exercises a)\<rparr>"
proof -
  let ?a' = "a\<lparr>exercises := tl (exercises a)\<rparr>"
  note facts = step_inActiveView [OF v, where e = "RemoveExercise 0" and a' = ?a']
  show "inActiveView (step (InActiveView (RemoveExercise 0)) st) ?a'"
    using ne by (intro facts(1)) (simp_all add: removeExercise_def updateSession_Some removeAt_tl)
  have "db (step (InActiveView (RemoveExercise 0)) st) = db (handleStrength (RemoveExercise 0) a st)"
    using ne by (intro facts(2)) (simp_all add: removeExercise_def updateSession_Some removeAt_tl)
  then show "last (sessions (db (step (InActiveView (RemoveExercise 0)) st))) = ?a'"
    using ne by (simp add: removeExercise_def updateSession_Some removeAt_tl upsert_def)
qed

lemma remove_first_k:
  "inActiveView st a \<Longrightarrow> k < length (exercises a)
   \<Longrightarrow> inActiveView (run (replicate (Suc k) (InActiveView (RemoveExercise 0))) st)
         (a\<lparr>exercises := drop (Suc k) (exercises a)\<rparr>)
       \<and> last (sessions (db (run (replicate (Suc k) (InActiveView (RemoveExercise 0))) st)))
           = a\<lparr>exercises := drop (Suc k) (exercises a)\<rparr>"
proof (induction k arbitrary: st a)
  case 0
  then have "exercises a \<noteq> []" by auto
  from step_removeFirst [OF "0.prems"(1) this] show ?case
    by (simp add: drop_Suc del: handle.simps)
next
  case (Suc k)
  then have ne: "exercises a \<noteq> []" by auto
  let ?a1 = "a\<lparr>exercises := tl (exercises a)\<rparr>"
  from Suc.prems(2) have "k < length (exercises ?a1)" by simp
  from Suc.IH [OF step_removeFirst(1) [OF Suc.prems(1) ne] this] show ?case
    by (simp add: drop_Suc del: handle.simps)
qed

lemma pushEmptied_session:
  "activeSession pushEmptied = Some emptiedPush \<and> last (sessions (db pushEmptied)) = emptiedPush"
proof -
  let ?st1 = "step (SetActiveTab Push) (initApp initDB)"
  let ?st2 = "step (CreateNewSession exampleIds 0) ?st1"
  let ?a0 = "newSession exampleIds 0 Push PUSH_TEMPLATE"
  have tab: "activeTab ?st1 = Push" "activeSession ?st1 = None" "\<not> crashed ?st1"
    by (simp_all add: open_tab)
  have "inActiveView ?st2 (newSession exampleIds 0 (activeTab ?st1) (templateFor (activeTab ?st1)))"
    by (rule create_strength) (simp_all add: tab isStrengthTab_def)
  then have v2: "inActiveView ?st2 ?a0"
    by (simp add: tab templateFor_def)
  have len: "length (exercises ?a0) = 7"
    using push_exercises [of exampleIds 0, THEN arg_cong, of length] by simp
  then have six: "6 < length (exercises ?a0)" by simp
  have seven: "replicate 7 (InActiveView (RemoveExercise 0))
                 = replicate (Suc 6) (InActiveView (RemoveExercise 0))"
    by (simp add: eval_nat_numeral)
  from remove_first_k [OF v2 six] len show ?thesis
    unfolding pushEmptied_def emptiedPush_def run_append seven
    by (simp add: inActiveView_def del: handle.simps replicate.simps)
qed

text \<open>
  A push session whose seven exercises have been removed is active and stored, and none
  of the three alternatives holds for it.
\<close>

theorem emptied_session_not_keyed:
  "emptiedPush \<in> sessionsOf pushEmptied \<and> last (sessions (db pushEmptied)) = emptiedPush
   \<and> session_type emptiedPush = Push \<and> \<not> exactlyOneKeyed emptiedPush
   \<and> \<not> strengthAlt emptiedPush \<and> \<not> murphAlt emptiedPush \<and> \<not> runAlt emptiedPush"
proof -
  have "emptiedPush \<in> sessionsOf pushEmptied"
    using pushEmptied_session by (simp add: sessionsOf_def)
  moreover have "session_type emptiedPush = Push" "\<not> strengthAlt emptiedPush"
    "\<not> murphAlt emptiedPush" "\<not> runAlt emptiedPush"
    by (simp_all add: emptiedPush_def newSession_def strengthAlt_def murphAlt_def runAlt_def)
  moreover from this have "\<not> exactlyOneKeyed emptiedPush"
    by (simp add: exactlyOneKeyed_def)
  ultimately show ?thesis
    using pushEmptied_session by simp
qed


theorem reachable_sessions_keyed_witness:
  "newSession exampleIds 0 Pull PULL_TEMPLATE \<in> sessionsOf pullStarted
   \<and> exactlyOneKeyed (newSession exampleIds 0 Pull PULL_TEMPLATE)"
proof -
  let ?a = "newSession exampleIds 0 Pull PULL_TEMPLATE"
  have mem: "?a \<in> sessionsOf pullStarted"
    using pullStarted_view by (simp add: inActiveView_def sessionsOf_def)
  have "exercises ?a \<noteq> []"
    by (simp add: newSession_def PULL_TEMPLATE_def)
  then have full: "\<not> emptiedStrength ?a"
    by (simp add: emptiedStrength_def)
  from reachable_sessions_keyed [of "[SetActiveTab Pull, CreateNewSession exampleIds 0]"] mem
  have "if emptiedStrength ?a then \<not> strengthAlt ?a \<and> \<not> murphAlt ?a \<and> \<not> runAlt ?a
        else exactlyOneKeyed ?a"
    unfolding pullStarted_def by blast
  with full mem show ?thesis by simp
qed


end
